theory Spec2Isabelle
  imports Complex_Main "HOL-Library.Multiset" "HOL-Library.List_Lexorder" "HOL-Library.Char_ord"
begin

section \<open>The JavaScript runtime, as far as the calendar uses it\<close>

text \<open>
  Numbers are JavaScript doubles that hold integers; they are modelled as \<open>int\<close>.
  \<^verbatim>\<open>Number(s)\<close> of a query-string or header value is \<open>NaN\<close> when the text is not a
  number, and \<open>Num n\<close> when it reads the integer \<open>n\<close>. Fractions are outside the model.
\<close>

datatype jsnum = NaN | Num int

text \<open>The \<^verbatim>\<open>%\<close> operator: the remainder takes the sign of the dividend.\<close>

definition js_rem :: "int \<Rightarrow> int \<Rightarrow> int" where
  "js_rem a b = sgn a * (\<bar>a\<bar> mod \<bar>b\<bar>)"

text \<open>
  The values the code can raise: the Error objects of the runtime and of \<^verbatim>\<open>fetch\<close>, and
  \<open>NotAnObject\<close> for a raised \<^verbatim>\<open>null\<close> or \<^verbatim>\<open>undefined\<close>, which has no property to read.
\<close>

datatype exn = TypeError | RangeError | SyntaxError | FetchFailed | NotAnObject

subsection \<open>Date\<close>

text \<open>
  A \<^verbatim>\<open>Date\<close> holds a time value: milliseconds since 1970-01-01T00:00:00Z, at most
  8.64e15 in magnitude, or NaN (an invalid date). Every operation that stores a time
  value clips it: outside the range the date becomes invalid.
\<close>

datatype jsdate = InvalidDate | Instant int

definition msPerDay :: int where
  "msPerDay = 86400000"

definition maxTime :: int where
  "maxTime = 8640000000000000"

definition TimeClip :: "int \<Rightarrow> jsdate" where
  "TimeClip v = (if \<bar>v\<bar> \<le> maxTime then Instant v else InvalidDate)"

text \<open>
  The local time zone of the runtime: \<open>utc_offset z t\<close> is the offset of local time from
  UTC at the instant \<open>t\<close>, and \<open>local_offset z l\<close> is the offset that the runtime takes for
  the local time \<open>l\<close> (for a local time that a change of offset skips or repeats, the
  offset before the change). A zone with daylight saving has offsets that vary.
\<close>

record zone =
  utc_offset :: "int \<Rightarrow> int"
  local_offset :: "int \<Rightarrow> int"

definition LocalTime :: "zone \<Rightarrow> int \<Rightarrow> int" where
  "LocalTime z t = t + utc_offset z t"

definition UTC :: "zone \<Rightarrow> int \<Rightarrow> int" where
  "UTC z l = l - local_offset z l"

definition Day :: "int \<Rightarrow> int" where
  "Day t = t div msPerDay"

definition TimeWithinDay :: "int \<Rightarrow> int" where
  "TimeWithinDay t = t mod msPerDay"

text \<open>
  \<^verbatim>\<open>d.setHours(0, 0, 0, 0)\<close>: the local day of \<open>d\<close> at local time 00:00, turned back
  into a time value.
\<close>

definition setHours0 :: "zone \<Rightarrow> jsdate \<Rightarrow> jsdate" where
  "setHours0 z d =
     (case d of
        InvalidDate \<Rightarrow> InvalidDate
      | Instant t \<Rightarrow> TimeClip (UTC z (Day (LocalTime z t) * msPerDay)))"

text \<open>
  \<^verbatim>\<open>d.setDate(d.getDate() + k)\<close>: the local day moves by \<open>k\<close>, the local time of day
  stays.
\<close>

definition addDate :: "zone \<Rightarrow> jsdate \<Rightarrow> int \<Rightarrow> jsdate" where
  "addDate z d k =
     (case d of
        InvalidDate \<Rightarrow> InvalidDate
      | Instant t \<Rightarrow>
          TimeClip (UTC z ((Day (LocalTime z t) + k) * msPerDay + TimeWithinDay (LocalTime z t))))"

text \<open>\<^verbatim>\<open>d.getDay()\<close> of a valid date: the local weekday, 0 = Sunday; 1970-01-01 was a Thursday.\<close>

definition getDay :: "zone \<Rightarrow> int \<Rightarrow> int" where
  "getDay z t = (Day (LocalTime z t) + 4) mod 7"

text \<open>
  \<^verbatim>\<open>d.toISOString()\<close> raises a RangeError on an invalid date, and otherwise prints the
  instant in UTC; the model keeps the instant.
\<close>

definition toISOString :: "jsdate \<Rightarrow> exn + int" where
  "toISOString d = (case d of InvalidDate \<Rightarrow> Inl RangeError | Instant t \<Rightarrow> Inr t)"

text \<open>
  \<^verbatim>\<open>d.toISOString().split("T")[0]\<close> is the UTC calendar date of the instant, printed
  as YYYY-MM-DD. The model keeps that date as its day number (days since 1970-01-01).
\<close>

definition toISODate :: "int \<Rightarrow> int" where
  "toISODate t = t div msPerDay"

text \<open>
  The three lines that align a date to the start of its week, as they stand in
  fetchContributions (twice) and in the handler:
  \<^verbatim>\<open>dayShift = (d.getDay() - weekStart + 7) % 7; d.setDate(d.getDate() - dayShift);
  d.setHours(0, 0, 0, 0)\<close>. The weekday of an invalid date is NaN, and the date stays
  invalid.
\<close>

definition align :: "zone \<Rightarrow> jsdate \<Rightarrow> int \<Rightarrow> jsdate" where
  "align z d weekStart' =
     (case d of
        InvalidDate \<Rightarrow> InvalidDate
      | Instant t \<Rightarrow>
          (let dayShift = js_rem (getDay z t - weekStart' + 7) 7
           in setHours0 z (addDate z d (- dayShift))))"

section \<open>The widget: class GitHubCalendar\<close>

record options =
  weekStart :: int
  daysToShow :: int
  perPage :: int
  maxPages :: int
  proxyBaseUrl :: string

text \<open>The defaults of the constructor.\<close>

definition default_options :: options where
  "default_options = \<lparr> weekStart = 0, daysToShow = 167, perPage = 100, maxPages = 10,
     proxyBaseUrl = ''/.netlify/functions/github-contributions'' \<rparr>"

record 'd ContributionDay =
  date :: 'd
  count :: int

subsection \<open>fetchContributions, the proxy call: the window sent to the proxy\<close>

text \<open>\<^verbatim>\<open>Number(x) || dflt\<close> on a number: zero is falsy.\<close>

definition or_default :: "int \<Rightarrow> int \<Rightarrow> int" where
  "or_default x dflt = (if x = 0 then dflt else x)"

text \<open>The two instants that the widget prints into the URL of the proxy.\<close>

record window =
  from_date :: int
  to_date :: int

text \<open>
  \<open>now\<close> is the time value of \<^verbatim>\<open>new Date()\<close>. Printing an invalid date raises, and the
  exception takes the widget to the fallback.
\<close>

definition widget_window :: "zone \<Rightarrow> int \<Rightarrow> options \<Rightarrow> exn + window" where
  "widget_window z now opts =
     (let today = setHours0 z (Instant now)
      in case toISOString today of
           Inl e \<Rightarrow> Inl e
         | Inr toISO \<Rightarrow>
             (let daysToShow' = or_default (daysToShow opts) 167;
                  fromBase = setHours0 z (addDate z today (- (daysToShow' - 1)));
                  weekStart' = or_default (weekStart opts) 0;
                  fromAligned = align z fromBase weekStart'
              in case toISOString fromAligned of
                   Inl e \<Rightarrow> Inl e
                 | Inr fromISO \<Rightarrow> Inr \<lparr> from_date = fromISO, to_date = toISO \<rparr>))"

subsection \<open>getContributionLevel\<close>

text \<open>
  An argument is \<open>None\<close> when it is \<^verbatim>\<open>undefined\<close>, \<^verbatim>\<open>null\<close> or \<^verbatim>\<open>NaN\<close>, and
  \<open>Some n\<close> when it is the number \<open>n\<close>. The code divides two doubles; the definition
  takes the exact quotient. The two agree in the three comparisons when the count is at
  most \<open>2^53\<close> and the maximum is below \<open>2^52\<close> in magnitude: a quotient above a
  threshold is then above it by more than \<open>2^-54\<close>, half the distance to the next
  double. Beyond that bound the definition does not speak for the code.
\<close>

definition falsy :: "int option \<Rightarrow> bool" where
  "falsy v = (case v of None \<Rightarrow> True | Some n \<Rightarrow> n = 0)"

definition getContributionLevel :: "int option \<Rightarrow> int option \<Rightarrow> nat" where
  "getContributionLevel cnt mx =
     (if falsy cnt \<or> cnt = Some 0 then 0
      else if falsy mx \<or> mx = Some 0 then 1
      else let ratio = real_of_int (the cnt) / real_of_int (the mx)
           in if ratio \<le> 0.25 then 1
              else if ratio \<le> 0.5 then 2
              else if ratio \<le> 0.75 then 3
              else 4)"

subsection \<open>The comparator and Array.prototype.sort\<close>

text \<open>
  \<^verbatim>\<open>(a, b) => (a.date < b.date ? -1 : 1)\<close>. Dates are compared as the runtime compares
  the texts; the model asks for a linear order on them.
\<close>

definition by_date :: "('d::linorder) ContributionDay \<Rightarrow> 'd ContributionDay \<Rightarrow> int" where
  "by_date a b = (if date a < date b then - 1 else 1)"

text \<open>
  \<^verbatim>\<open>Array.prototype.sort\<close> is a stable comparison sort whose algorithm is left to the
  engine. The model is insertion, left to right: an element goes into the sorted prefix in
  front of the first element that the comparator places after it.
\<close>

fun insert_sorted :: "('a \<Rightarrow> 'a \<Rightarrow> int) \<Rightarrow> 'a \<Rightarrow> 'a list \<Rightarrow> 'a list" where
  "insert_sorted cmp x [] = [x]"
| "insert_sorted cmp x (y # ys) =
     (if cmp x y < 0 then x # y # ys else y # insert_sorted cmp x ys)"

definition array_sort :: "('a \<Rightarrow> 'a \<Rightarrow> int) \<Rightarrow> 'a list \<Rightarrow> 'a list" where
  "array_sort cmp xs = foldl (\<lambda>sorted x. insert_sorted cmp x sorted) [] xs"

subsection \<open>fetchEventsAllPages\<close>

text \<open>
  An event of the public feed, as far as the widget reads it: \<open>created_at\<close> is \<open>None\<close>
  when the field is missing or empty, and otherwise what \<^verbatim>\<open>new Date\<close> reads from it.
\<close>

record pub_event =
  created_at :: "jsdate option"

datatype rest_body = NotJson | NotArray | Events "pub_event list"

text \<open>
  A response of the REST endpoint. A header is \<open>None\<close> when it is absent; \<open>remaining\<close>
  holds \<^verbatim>\<open>Number(remaining)\<close>, and \<open>reset\<close> holds \<^verbatim>\<open>Number(reset)\<close> of a header that
  is not the empty text (the empty text is falsy, as an absent header is).
\<close>

record rest_response =
  remaining :: "jsnum option"
  reset :: "jsnum option"
  status :: int
  text_body :: string
  json_body :: rest_body

datatype rest_fetch = Rejected | Response rest_response

definition ok :: "int \<Rightarrow> bool" where
  "ok st = (200 \<le> st \<and> st \<le> 299)"

text \<open>
  The errors of fetchEventsAllPages. The rate-limit message prints the reset date when
  there is one: \<^verbatim>\<open>new Date(Number(reset) * 1000).toLocaleString()\<close>, which is
  "Invalid Date" when the header is not a number or the product is outside the range
  of dates.
\<close>

datatype fetch_error =
    RateLimitReached "jsdate option"
  | UserNotFound
  | AccessDenied
  | HttpFailure int string
  | BodyNotJson
  | NetworkFailure

definition resetDate :: "rest_response \<Rightarrow> jsdate option" where
  "resetDate res =
     (case reset res of
        None \<Rightarrow> None
      | Some NaN \<Rightarrow> Some InvalidDate
      | Some (Num s) \<Rightarrow> Some (TimeClip (s * 1000)))"

text \<open>
  The loop over the pages. \<open>net\<close> answers the request for a page; \<open>requested\<close> is the
  list of the pages requested so far, in the order of the requests.
\<close>

function fetch_pages ::
  "(int \<Rightarrow> rest_fetch) \<Rightarrow> int \<Rightarrow> int \<Rightarrow> int \<Rightarrow> pub_event list \<Rightarrow> int list
     \<Rightarrow> (fetch_error + pub_event list) \<times> int list" where
  "fetch_pages net perPage' maxPages' page allEvents requested =
     (if page \<le> maxPages' then
        (case net page of
           Rejected \<Rightarrow> (Inl NetworkFailure, requested @ [page])
         | Response res \<Rightarrow>
             if remaining res = Some (Num 0) then
               (Inl (RateLimitReached (resetDate res)), requested @ [page])
             else if status res = 404 then (Inl UserNotFound, requested @ [page])
             else if status res = 403 then (Inl AccessDenied, requested @ [page])
             else if \<not> ok (status res) then
               (Inl (HttpFailure (status res) (text_body res)), requested @ [page])
             else
               (case json_body res of
                  NotJson \<Rightarrow> (Inl BodyNotJson, requested @ [page])
                | NotArray \<Rightarrow> (Inr allEvents, requested @ [page])
                | Events pageEvents \<Rightarrow>
                    if pageEvents = [] then (Inr allEvents, requested @ [page])
                    else if int (length pageEvents) < perPage' then
                      (Inr (allEvents @ pageEvents), requested @ [page])
                    else fetch_pages net perPage' maxPages' (page + 1)
                           (allEvents @ pageEvents) (requested @ [page])))
      else (Inr allEvents, requested))"
  by pat_completeness auto
termination
  by (relation "measure (\<lambda>(net, perPage', maxPages', page, allEvents, requested).
        nat (maxPages' + 1 - page))") auto

declare fetch_pages.simps [simp del]

definition fetchEventsAllPages ::
  "(int \<Rightarrow> rest_fetch) \<Rightarrow> options \<Rightarrow> (fetch_error + pub_event list) \<times> int list" where
  "fetchEventsAllPages net opts = fetch_pages net (perPage opts) (maxPages opts) 1 [] []"

subsection \<open>fetchContributions, the REST fallback\<close>

text \<open>\<^verbatim>\<open>contributionsMap.get(date) || 0\<close>\<close>

definition get_or_0 :: "(int \<rightharpoonup> int) \<Rightarrow> int \<Rightarrow> int" where
  "get_or_0 m d = (case m d of None \<Rightarrow> 0 | Some c \<Rightarrow> or_default c 0)"

text \<open>The counts per day; an event whose \<open>created_at\<close> is not a date raises.\<close>

fun count_events :: "pub_event list \<Rightarrow> (int \<rightharpoonup> int) \<Rightarrow> exn + (int \<rightharpoonup> int)" where
  "count_events [] contributionsMap = Inr contributionsMap"
| "count_events (ev # evs) contributionsMap =
     (case created_at ev of
        None \<Rightarrow> count_events evs contributionsMap
      | Some InvalidDate \<Rightarrow> Inl RangeError
      | Some (Instant t) \<Rightarrow>
          (let date' = toISODate t
           in count_events evs
                (contributionsMap(date' \<mapsto> get_or_0 contributionsMap date' + 1))))"

text \<open>The start date of the fallback: \<open>startBase\<close> keeps the time of day of \<open>today\<close>.\<close>

definition startDate :: "zone \<Rightarrow> int \<Rightarrow> options \<Rightarrow> jsdate" where
  "startDate z now opts =
     (let today = setHours0 z (Instant now);
          startBase = addDate z today (- (daysToShow opts - 1))
      in align z startBase (weekStart opts))"

text \<open>
  The loop \<^verbatim>\<open>for (d = new Date(startDate); d <= today; d.setDate(d.getDate() + 1))\<close>.
  A comparison with an invalid date is false and ends the loop. The result is \<open>None\<close>
  when the loop does not end.
\<close>

partial_function (option) fill_days ::
  "zone \<Rightarrow> (int \<rightharpoonup> int) \<Rightarrow> jsdate \<Rightarrow> jsdate \<Rightarrow> int ContributionDay list
     \<Rightarrow> int ContributionDay list option" where
  "fill_days z contributionsMap today d contributionsArr =
     (case d of
        InvalidDate \<Rightarrow> Some contributionsArr
      | Instant t \<Rightarrow>
          (case today of
             InvalidDate \<Rightarrow> Some contributionsArr
           | Instant y \<Rightarrow>
               if t \<le> y then
                 (let dateStr = toISODate t;
                      count' = get_or_0 contributionsMap dateStr
                  in fill_days z contributionsMap today (addDate z d 1)
                       (contributionsArr @ [\<lparr> date = dateStr, count = count' \<rparr>]))
               else Some contributionsArr))"

declare fill_days.simps [code]

definition fallback_days ::
  "zone \<Rightarrow> int \<Rightarrow> options \<Rightarrow> pub_event list \<Rightarrow> (exn + int ContributionDay list) option" where
  "fallback_days z now opts events =
     (case count_events events Map.empty of
        Inl e \<Rightarrow> Some (Inl e)
      | Inr contributionsMap \<Rightarrow>
          map_option Inr
            (fill_days z contributionsMap (setHours0 z (Instant now)) (startDate z now opts) []))"

section \<open>The proxy: the Netlify function handler\<close>

record query =
  q_username :: "string option"
  q_user :: "string option"
  q_from :: "jsdate option"
  q_to :: "jsdate option"
  q_days :: "jsnum option"
  q_weekStart :: "jsnum option"

text \<open>
  A query field is \<open>None\<close> when the parameter is absent or the empty text (both falsy).
  \<open>q_from\<close> and \<open>q_to\<close> hold what \<^verbatim>\<open>new Date\<close> reads from the text, \<open>q_days\<close> and
  \<open>q_weekStart\<close> what \<^verbatim>\<open>Number\<close> reads from it.
\<close>

definition no_query :: query where
  "no_query = \<lparr> q_username = None, q_user = None, q_from = None, q_to = None,
     q_days = None, q_weekStart = None \<rparr>"

text \<open>
  The days branch of the handler: \<open>None\<close> when \<^verbatim>\<open>fromISO\<close> stays null, otherwise the
  result of \<^verbatim>\<open>fromDate.toISOString()\<close>.
\<close>

definition from_of_days :: "zone \<Rightarrow> jsdate \<Rightarrow> query \<Rightarrow> (exn + int) option" where
  "from_of_days z toISO q =
     (case q_days q of
        None \<Rightarrow> None
      | Some NaN \<Rightarrow> None
      | Some (Num days) \<Rightarrow>
          if days > 0 then
            (let toDate = setHours0 z toISO;
                 fromDate = setHours0 z (addDate z toDate (- (days - 1)));
                 fromDate' =
                   (case q_weekStart q of
                      Some (Num weekStart') \<Rightarrow>
                        if weekStart' = 0 \<or> weekStart' = 1 then align z fromDate weekStart'
                        else fromDate
                    | _ \<Rightarrow> fromDate)
             in Some (toISOString fromDate'))
          else None)"

text \<open>
  The window of the handler, the two variables of the GraphQL query. \<open>year_before\<close> is
  the runtime's \<^verbatim>\<open>setFullYear(getFullYear() - 1)\<close> on an instant. The text of
  \<^verbatim>\<open>query.to\<close> and of \<^verbatim>\<open>query.from\<close> goes to GitHub as it is; the model keeps what
  \<^verbatim>\<open>new Date\<close> reads from it.
\<close>

definition resolve_window ::
  "zone \<Rightarrow> int \<Rightarrow> (int \<Rightarrow> int) \<Rightarrow> query \<Rightarrow> exn + (jsdate \<times> jsdate)" where
  "resolve_window z now year_before q =
     (let today = setHours0 z (Instant now)
      in case (case q_to q of
                 Some d \<Rightarrow> Inr d
               | None \<Rightarrow> (case toISOString today of Inl e \<Rightarrow> Inl e | Inr t \<Rightarrow> Inr (Instant t))) of
           Inl e \<Rightarrow> Inl e
         | Inr toISO \<Rightarrow>
             (case from_of_days z toISO q of
                Some (Inl e) \<Rightarrow> Inl e
              | Some (Inr fromISO) \<Rightarrow> Inr (Instant fromISO, toISO)
              | None \<Rightarrow>
                  (case q_from q of
                     Some f \<Rightarrow> Inr (f, toISO)
                   | None \<Rightarrow>
                       (case toISO of
                          InvalidDate \<Rightarrow> Inl RangeError
                        | Instant t \<Rightarrow>
                            (case toISOString (TimeClip (year_before t)) of
                               Inl e \<Rightarrow> Inl e
                             | Inr fromISO \<Rightarrow> Inr (Instant fromISO, toISO))))))"

subsection \<open>The request\<close>

text \<open>
  \<open>pathParameters\<close> is \<open>None\<close> when the object is missing, \<open>Some None\<close> when it has no
  \<open>username\<close>, and \<open>Some (Some s)\<close> when it has the username \<open>s\<close>.
\<close>

record event =
  pathParameters :: "string option option"
  queryStringParameters :: "query option"
  path :: "string option"

text \<open>A text is truthy when it is there and not empty.\<close>

definition truthy :: "string option \<Rightarrow> bool" where
  "truthy v = (case v of None \<Rightarrow> False | Some s \<Rightarrow> s \<noteq> [])"

text \<open>\<^verbatim>\<open>p.split("/").pop()\<close>: what follows the last slash.\<close>

definition split_pop :: "string \<Rightarrow> string" where
  "split_pop p = rev (takeWhile (\<lambda>c. c \<noteq> CHR ''/'') (rev p))"

text \<open>The four operands of the \<^verbatim>\<open>||\<close> chain, in the order of the source.\<close>

definition from_pathParameters :: "event \<Rightarrow> string option" where
  "from_pathParameters ev = (case pathParameters ev of None \<Rightarrow> None | Some u \<Rightarrow> u)"

definition from_query_username :: "event \<Rightarrow> string option" where
  "from_query_username ev = (case queryStringParameters ev of None \<Rightarrow> None | Some q \<Rightarrow> q_username q)"

definition from_query_user :: "event \<Rightarrow> string option" where
  "from_query_user ev = (case queryStringParameters ev of None \<Rightarrow> None | Some q \<Rightarrow> q_user q)"

definition from_path :: "event \<Rightarrow> string option" where
  "from_path ev = (case path ev of None \<Rightarrow> None | Some p \<Rightarrow> if p = [] then Some p else Some (split_pop p))"

definition resolve_username :: "event \<Rightarrow> string option" where
  "resolve_username ev =
     (if truthy (from_pathParameters ev) then from_pathParameters ev
      else if truthy (from_query_username ev) then from_query_username ev
      else if truthy (from_query_user ev) then from_query_user ev
      else from_path ev)"

subsection \<open>The answer of GitHub\<close>

record 'd contributionDay =
  day_date :: 'd
  contributionCount :: int

text \<open>A week whose \<open>contributionDays\<close> is \<open>None\<close> has no such array.\<close>

record 'd week =
  contributionDays :: "'d contributionDay list option"

text \<open>
  \<^verbatim>\<open>json.data.user.contributionsCollection.contributionCalendar.weeks\<close>: \<open>MissingPath\<close>
  when an object on the way is null or missing (the read raises a TypeError),
  \<open>Weeks None\<close> when the last field is null or missing, \<open>Weeks (Some ws)\<close> otherwise.
\<close>

datatype 'd calendar = MissingPath | Weeks "'d week list option"

datatype 'd gh_json = JsonNull | JsonObject "string list option" "'d calendar"

text \<open>
  The response of the GraphQL endpoint: \<open>gh_text\<close> and \<open>gh_json\<close> are \<open>None\<close> when
  reading the body fails, or the body is not JSON.
\<close>

record 'd gh_response =
  gh_status :: int
  gh_text :: "string option"
  gh_json :: "'d gh_json option"

datatype 'd gh_fetch = FetchRejected | FetchResponse "'d gh_response"

subsection \<open>The environment and the response\<close>

record 'd env =
  env_zone :: zone
  env_now :: int
  year_before :: "int \<Rightarrow> int"
  GITHUB_TOKEN :: "string option"
  CACHE_TTL_SECONDS :: "jsnum option"
  graphql :: "string \<Rightarrow> jsdate \<Rightarrow> jsdate \<Rightarrow> 'd gh_fetch"

text \<open>
  The texts of the error bodies: \<open>UsernameRequired\<close> is "username e obrigatorio na rota
  ou como query param.", \<open>TokenMissing\<close> is "GITHUB_TOKEN nao configurado no ambiente.",
  \<open>GraphQLError\<close> is "Erro do GitHub GraphQL" and \<open>InternalError\<close> is "Erro interno na
  funcao".
\<close>

datatype message = UsernameRequired | TokenMissing | GraphQLError | InternalError

datatype 'd body =
    ErrorOnly message
  | ErrorDetails message exn
  | ErrorList message "string list"
  | PlainText string
  | DaysJson "'d ContributionDay list"

text \<open>\<open>cacheControl\<close> is \<open>Some n\<close> for the header "public, max-age=n".\<close>

record 'd response =
  statusCode :: int
  contentType :: string
  allowOrigin :: string
  cacheControl :: "jsnum option"
  body :: "'d body"

definition json_response :: "int \<Rightarrow> 'd body \<Rightarrow> 'd response" where
  "json_response st b = \<lparr> statusCode = st, contentType = ''application/json'',
     allowOrigin = ''*'', cacheControl = None, body = b \<rparr>"

subsection \<open>The days of the answer\<close>

text \<open>The two nested \<^verbatim>\<open>forEach\<close> loops.\<close>

fun flatten_weeks :: "'d week list \<Rightarrow> 'd ContributionDay list \<Rightarrow> exn + 'd ContributionDay list" where
  "flatten_weeks [] days = Inr days"
| "flatten_weeks (w # ws) days =
     (case contributionDays w of
        None \<Rightarrow> Inl TypeError
      | Some ds \<Rightarrow>
          flatten_weeks ws
            (days @ map (\<lambda>d. \<lparr> date = day_date d, count = contributionCount d \<rparr>) ds))"

text \<open>\<^verbatim>\<open>days.slice(days.length - wanted)\<close> under its two guards.\<close>

definition limit_days :: "jsnum option \<Rightarrow> 'a list \<Rightarrow> 'a list" where
  "limit_days qdays days =
     (case qdays of
        Some (Num wanted) \<Rightarrow>
          if wanted > 0 then
            (if int (length days) > wanted
             then drop (nat (int (length days) - wanted)) days
             else days)
          else days
      | _ \<Rightarrow> days)"

definition proxy_days ::
  "('d::linorder) week list \<Rightarrow> jsnum option \<Rightarrow> exn + 'd ContributionDay list" where
  "proxy_days weeks qdays =
     (case flatten_weeks weeks [] of
        Inl e \<Rightarrow> Inl e
      | Inr days \<Rightarrow> Inr (limit_days qdays (array_sort by_date days)))"

subsection \<open>handler\<close>

text \<open>The body of the \<^verbatim>\<open>try\<close> block: a response, or the exception it raises.\<close>

definition handler_try :: "('d::linorder) env \<Rightarrow> event \<Rightarrow> exn + 'd response" where
  "handler_try e ev =
     (let username = resolve_username ev
      in if \<not> truthy username then Inr (json_response 400 (ErrorOnly UsernameRequired))
         else
           (let query = (case queryStringParameters ev of None \<Rightarrow> no_query | Some q \<Rightarrow> q)
            in case resolve_window (env_zone e) (env_now e) (year_before e) query of
                 Inl err \<Rightarrow> Inl err
               | Inr (fromISO, toISO) \<Rightarrow>
                   if \<not> truthy (GITHUB_TOKEN e) then Inr (json_response 500 (ErrorOnly TokenMissing))
                   else
                     (case graphql e (the username) fromISO toISO of
                        FetchRejected \<Rightarrow> Inl FetchFailed
                      | FetchResponse ghRes \<Rightarrow>
                          if \<not> ok (gh_status ghRes) then
                            (case gh_text ghRes of
                               None \<Rightarrow> Inl TypeError
                             | Some txt \<Rightarrow>
                                 Inr \<lparr> statusCode = gh_status ghRes, contentType = ''text/plain'',
                                       allowOrigin = ''*'', cacheControl = None,
                                       body = PlainText (''GitHub GraphQL error: '' @ txt) \<rparr>)
                          else
                            (case gh_json ghRes of
                               None \<Rightarrow> Inl SyntaxError
                             | Some JsonNull \<Rightarrow> Inl TypeError
                             | Some (JsonObject errors cal) \<Rightarrow>
                                 if errors \<noteq> None \<and> errors \<noteq> Some [] then
                                   Inr (json_response 500 (ErrorList GraphQLError (the errors)))
                                 else
                                   (case cal of
                                      MissingPath \<Rightarrow> Inl TypeError
                                    | Weeks ws \<Rightarrow>
                                        (case proxy_days (case ws of None \<Rightarrow> [] | Some l \<Rightarrow> l) (q_days query) of
                                           Inl err \<Rightarrow> Inl err
                                         | Inr days \<Rightarrow>
                                             Inr \<lparr> statusCode = 200, contentType = ''application/json'',
                                                   allowOrigin = ''*'',
                                                   cacheControl =
                                                     Some (case CACHE_TTL_SECONDS e of
                                                             None \<Rightarrow> Num 600 | Some n \<Rightarrow> n),
                                                   body = DaysJson days \<rparr>))))))"

text \<open>
  The \<^verbatim>\<open>catch\<close> block: it logs the exception, reads \<^verbatim>\<open>err.message\<close> and answers
  500. Reading a property of \<^verbatim>\<open>null\<close> or \<^verbatim>\<open>undefined\<close> raises a TypeError, which
  would leave the handler.
\<close>

definition read_message :: "exn \<Rightarrow> exn + exn" where
  "read_message err = (case err of NotAnObject \<Rightarrow> Inl TypeError | _ \<Rightarrow> Inr err)"

definition catch_block :: "exn \<Rightarrow> exn + 'd response" where
  "catch_block err =
     (case read_message err of
        Inl err' \<Rightarrow> Inl err'
      | Inr details \<Rightarrow> Inr (json_response 500 (ErrorDetails InternalError details)))"

text \<open>The handler: a response, or the exception that leaves it.\<close>

definition handler :: "('d::linorder) env \<Rightarrow> event \<Rightarrow> exn + 'd response" where
  "handler e ev =
     (case handler_try e ev of
        Inl err \<Rightarrow> catch_block err
      | Inr res \<Rightarrow> Inr res)"

section \<open>Definitions for the statements\<close>

subsection \<open>The window of the specification\<close>

text \<open>
  The local calendar day of an instant (its day number in local time), the instant at
  which the zone places local time 00:00 of a local day, and the weekday of a day
  number (0 = Sunday).
\<close>

definition local_day :: "zone \<Rightarrow> int \<Rightarrow> int" where
  "local_day z t = (t + utc_offset z t) div 86400000"

definition midnight :: "zone \<Rightarrow> int \<Rightarrow> int" where
  "midnight z n = n * 86400000 - local_offset z (n * 86400000)"

definition weekday_of :: "int \<Rightarrow> int" where
  "weekday_of n = (n + 4) mod 7"

text \<open>
  The specification's words: the shift is \<open>((to - (N-1) days).weekday - W + 7) mod 7\<close>,
  and \<open>from\<close> is \<open>to - (N-1) days\<close> moved earlier by the shift. Days are calendar days:
  \<open>n\<close> is the local day of \<open>to\<close>.
\<close>

definition spec_shift :: "int \<Rightarrow> int \<Rightarrow> int \<Rightarrow> int" where
  "spec_shift n N W = (weekday_of (n - (N - 1)) - W + 7) mod 7"

definition spec_from :: "zone \<Rightarrow> int \<Rightarrow> int \<Rightarrow> int \<Rightarrow> int" where
  "spec_from z n N W = midnight z (n - (N - 1) - spec_shift n N W)"

text \<open>
  The zones of the statements: offsets of at most a day, and a local time that keeps
  its local day when the runtime turns it into an instant (no local day is skipped as a
  whole, and no skipped hour runs over midnight).
\<close>

definition zone_ok :: "zone \<Rightarrow> bool" where
  "zone_ok z \<longleftrightarrow>
     (\<forall>t. \<bar>utc_offset z t\<bar> \<le> 86400000) \<and> (\<forall>l. \<bar>local_offset z l\<bar> \<le> 86400000)
     \<and> (\<forall>l. local_day z (l - local_offset z l) = l div 86400000)"

text \<open>
  The dates of the statements: the window of \<open>N\<close> days before the instant \<open>t\<close>, with a
  margin of ten days, lies in the range of \<^verbatim>\<open>Date\<close>.
\<close>

definition in_reach :: "int \<Rightarrow> int \<Rightarrow> bool" where
  "in_reach t N \<longleftrightarrow> \<bar>t\<bar> + (N + 10) * 86400000 \<le> 8640000000000000"

text \<open>The instant that the handler takes for \<^verbatim>\<open>toISO\<close>: the one supplied, or the start of today.\<close>

definition handler_to :: "zone \<Rightarrow> int \<Rightarrow> query \<Rightarrow> int" where
  "handler_to z now q =
     (case q_to q of Some (Instant t) \<Rightarrow> t | _ \<Rightarrow> midnight z (local_day z now))"

subsection \<open>Sample zones\<close>

text \<open>
  A zone with one offset, and a zone that changes from the offset \<open>a\<close> to the offset \<open>b\<close>
  at the instant \<open>T\<close>.
\<close>

definition fixed_zone :: "int \<Rightarrow> zone" where
  "fixed_zone c = \<lparr> utc_offset = (\<lambda>t. c), local_offset = (\<lambda>l. c) \<rparr>"

definition changing_zone :: "int \<Rightarrow> int \<Rightarrow> int \<Rightarrow> zone" where
  "changing_zone T a b =
     \<lparr> utc_offset = (\<lambda>t. if t < T then a else b),
       local_offset = (\<lambda>l. if l < T + max a b then a else b) \<rparr>"

text \<open>
  London in 2024: UTC until 2024-03-31T01:00:00Z, one hour ahead after it.
\<close>

definition london :: zone where
  "london = changing_zone 1711846800000 0 3600000"

subsection \<open>The events of a day\<close>

text \<open>The number of events of the feed whose creation instant falls on the UTC day \<open>d\<close>.\<close>

definition events_on :: "int \<Rightarrow> pub_event list \<Rightarrow> nat" where
  "events_on d events =
     length (filter (\<lambda>ev. case created_at ev of Some (Instant t) \<Rightarrow> toISODate t = d | _ \<Rightarrow> False) events)"

text \<open>A feed of two events: one of 2024-01-10T08:00:00Z, one of 2024-01-08T12:00:00Z.\<close>

definition sample_events :: "pub_event list" where
  "sample_events =
     [\<lparr> created_at = Some (Instant 1704873600000) \<rparr>, \<lparr> created_at = Some (Instant 1704715200000) \<rparr>]"

subsection \<open>The days of a payload\<close>

text \<open>The days of the weeks in the order of the payload, when every week has its array.\<close>

definition flat_days :: "'d week list \<Rightarrow> 'd ContributionDay list" where
  "flat_days weeks =
     concat (map (\<lambda>w. map (\<lambda>d. \<lparr> date = day_date d, count = contributionCount d \<rparr>)
                          (the (contributionDays w))) weeks)"

text \<open>A payload whose weeks come out of order.\<close>

definition sample_weeks :: "string week list" where
  "sample_weeks =
     [\<lparr> contributionDays = Some [\<lparr> day_date = ''2024-01-08'', contributionCount = 3 \<rparr>,
                                 \<lparr> day_date = ''2024-01-09'', contributionCount = 1 \<rparr>] \<rparr>,
      \<lparr> contributionDays = Some [\<lparr> day_date = ''2024-01-01'', contributionCount = 5 \<rparr>,
                                 \<lparr> day_date = ''2024-01-02'', contributionCount = 0 \<rparr>] \<rparr>]"

subsection \<open>A sample feed\<close>

text \<open>
  A feed whose first page is full (with \<open>perPage = 2\<close>) and whose second page arrives
  with the quota used up.
\<close>

definition sample_net :: "int \<Rightarrow> rest_fetch" where
  "sample_net page =
     (if page = 1 then
        Response \<lparr> remaining = Some (Num 1), reset = Some (Num 1704884400), status = 200,
                   text_body = [], json_body = Events [\<lparr> created_at = None \<rparr>, \<lparr> created_at = None \<rparr>] \<rparr>
      else
        Response \<lparr> remaining = Some (Num 0), reset = Some (Num 1704884400), status = 403,
                   text_body = ''API rate limit exceeded'', json_body = NotJson \<rparr>)"

subsection \<open>The username of a request\<close>

text \<open>
  A value that is missing or the empty text; a request without a path parameter
  \<open>username\<close>; a request without a given query parameter; the trailing segment of a
  path, which is what follows its last slash (the whole path when it has none); a
  request whose path is missing or has an empty trailing segment.
\<close>

definition blank :: "string option \<Rightarrow> bool" where
  "blank v \<longleftrightarrow> v = None \<or> v = Some []"

definition no_path_parameter :: "event \<Rightarrow> bool" where
  "no_path_parameter ev \<longleftrightarrow>
     pathParameters ev = None \<or> (\<exists>v. pathParameters ev = Some v \<and> blank v)"

definition no_query_parameter :: "(query \<Rightarrow> string option) \<Rightarrow> event \<Rightarrow> bool" where
  "no_query_parameter f ev \<longleftrightarrow>
     queryStringParameters ev = None \<or> (\<exists>q. queryStringParameters ev = Some q \<and> blank (f q))"

definition trailing_segment :: "string \<Rightarrow> string \<Rightarrow> bool" where
  "trailing_segment p seg \<longleftrightarrow>
     CHR ''/'' \<notin> set seg \<and> (\<exists>pre. p = pre @ seg \<and> (pre = [] \<or> last pre = CHR ''/''))"

definition no_trailing_segment :: "event \<Rightarrow> bool" where
  "no_trailing_segment ev \<longleftrightarrow>
     path ev = None \<or> (\<exists>p. path ev = Some p \<and> trailing_segment p [])"

subsection \<open>The error responses, and the exceptions of the try block\<close>

definition bad_request :: "'d response" where
  "bad_request = \<lparr> statusCode = 400, contentType = ''application/json'',
     allowOrigin = ''*'', cacheControl = None, body = ErrorOnly UsernameRequired \<rparr>"

definition internal_error :: "exn \<Rightarrow> 'd response" where
  "internal_error err = \<lparr> statusCode = 500, contentType = ''application/json'',
     allowOrigin = ''*'', cacheControl = None, body = ErrorDetails InternalError err \<rparr>"

definition query_of :: "event \<Rightarrow> query" where
  "query_of ev = (case queryStringParameters ev of None \<Rightarrow> no_query | Some q \<Rightarrow> q)"

text \<open>
  The exceptions of the try block by their sources, for a request with a username: the
  window raises; \<^verbatim>\<open>fetch\<close> rejects; the body of a failed response cannot be read; the
  body of a successful response is not JSON; it is the JSON \<^verbatim>\<open>null\<close>; it reports no
  errors and an object on the way to \<^verbatim>\<open>weeks\<close> is missing; or a week has no
  \<^verbatim>\<open>contributionDays\<close>.
\<close>

definition try_raises :: "('d::linorder) env \<Rightarrow> event \<Rightarrow> exn \<Rightarrow> bool" where
  "try_raises e ev err \<longleftrightarrow>
     (\<exists>u. resolve_username ev = Some u \<and> u \<noteq> [] \<and>
        (resolve_window (env_zone e) (env_now e) (year_before e) (query_of ev) = Inl err
         \<or> (\<exists>fromISO toISO tok.
               resolve_window (env_zone e) (env_now e) (year_before e) (query_of ev) =
                 Inr (fromISO, toISO)
               \<and> GITHUB_TOKEN e = Some tok \<and> tok \<noteq> []
               \<and> (case graphql e u fromISO toISO of
                     FetchRejected \<Rightarrow> err = FetchFailed
                   | FetchResponse ghRes \<Rightarrow>
                       if gh_status ghRes < 200 \<or> 299 < gh_status ghRes
                       then gh_text ghRes = None \<and> err = TypeError
                       else (case gh_json ghRes of
                               None \<Rightarrow> err = SyntaxError
                             | Some JsonNull \<Rightarrow> err = TypeError
                             | Some (JsonObject errors cal) \<Rightarrow>
                                 (errors = None \<or> errors = Some []) \<and> err = TypeError
                                 \<and> (case cal of
                                       MissingPath \<Rightarrow> True
                                     | Weeks None \<Rightarrow> False
                                     | Weeks (Some ws) \<Rightarrow>
                                         (\<exists>w \<in> set ws. contributionDays w = None)))))))"

subsection \<open>Sample requests\<close>

text \<open>
  A proxy environment whose upstream answers 200 with a JSON object that has no
  \<open>data.user\<close>. \<open>year_before\<close> is a stand-in; no sample request reaches it.
\<close>

definition sample_env :: "string env" where
  "sample_env = \<lparr> env_zone = fixed_zone 0, env_now = 1704880800000,
     year_before = (\<lambda>t. t - 365 * msPerDay),
     GITHUB_TOKEN = Some ''ghp_token'', CACHE_TTL_SECONDS = None,
     graphql = (\<lambda>login fromISO toISO.
        FetchResponse \<lparr> gh_status = 200, gh_text = Some [],
                        gh_json = Some (JsonObject None MissingPath) \<rparr>) \<rparr>"

text \<open>Requests that name the user in one, or several, or none of the four places.\<close>

definition request_all :: event where
  "request_all = \<lparr> pathParameters = Some (Some ''alice''),
     queryStringParameters = Some (no_query\<lparr> q_username := Some ''bob'', q_user := Some ''carol'' \<rparr>),
     path = Some ''/.netlify/functions/github-contributions/dave'' \<rparr>"

definition request_query :: event where
  "request_query = \<lparr> pathParameters = Some None,
     queryStringParameters = Some (no_query\<lparr> q_username := Some ''bob'', q_user := Some ''carol'' \<rparr>),
     path = Some ''/.netlify/functions/github-contributions/dave'' \<rparr>"

definition request_by_user :: event where
  "request_by_user = \<lparr> pathParameters = None,
     queryStringParameters = Some (no_query\<lparr> q_user := Some ''octocat'', q_days := Some (Num 3) \<rparr>),
     path = Some ''/.netlify/functions/github-contributions/'' \<rparr>"

definition request_by_path :: event where
  "request_by_path = \<lparr> pathParameters = Some (Some []),
     queryStringParameters = Some (no_query\<lparr> q_username := Some [] \<rparr>),
     path = Some ''/.netlify/functions/github-contributions/dave'' \<rparr>"

definition request_without_user :: event where
  "request_without_user = \<lparr> pathParameters = Some None, queryStringParameters = None,
     path = Some ''/.netlify/functions/github-contributions/'' \<rparr>"

text \<open>A request whose \<open>to\<close> is not a date.\<close>

definition request_bad_to :: event where
  "request_bad_to = \<lparr> pathParameters = Some (Some ''octocat''),
     queryStringParameters = Some (no_query\<lparr> q_to := Some InvalidDate, q_days := Some (Num 3) \<rparr>),
     path = None \<rparr>"

section \<open>Dates\<close>

lemma msPerDay_pos: "0 < msPerDay" by (simp add: msPerDay_def)

lemma day_bounds: "Day x * msPerDay \<le> x \<and> x < Day x * msPerDay + msPerDay"
  using div_mult_mod_eq[of x msPerDay] pos_mod_bound[of msPerDay x] pos_mod_sign[of msPerDay x]
    msPerDay_pos unfolding Day_def by linarith

lemma Day_shift:
  assumes "0 \<le> r" and "r < msPerDay"
  shows "Day (k * msPerDay + r) = k"
proof -
  have "msPerDay \<noteq> 0" using msPerDay_pos by simp
  then have "(r + k * msPerDay) div msPerDay = k + r div msPerDay"
    by (rule div_mult_self1)
  moreover have "r div msPerDay = 0" using assms by (simp add: div_pos_pos_trivial)
  ultimately show ?thesis by (simp add: Day_def add.commute)
qed

lemma Day_mult: "Day (k * msPerDay) = k"
  using Day_shift[of 0 k] msPerDay_pos by simp

lemma TimeWithinDay_range: "0 \<le> TimeWithinDay x \<and> TimeWithinDay x < msPerDay"
  using msPerDay_pos by (simp add: TimeWithinDay_def)

lemma local_day_eq: "local_day z t = Day (LocalTime z t)"
  by (simp add: local_day_def Day_def LocalTime_def msPerDay_def)

lemma midnight_eq: "midnight z n = UTC z (n * msPerDay)"
  by (simp add: midnight_def UTC_def msPerDay_def)

lemma getDay_eq: "getDay z t = weekday_of (local_day z t)"
  by (simp add: getDay_def weekday_of_def local_day_eq)

lemma zone_ok_day: "zone_ok z \<Longrightarrow> local_day z (UTC z l) = Day l"
  by (simp add: zone_ok_def UTC_def Day_def msPerDay_def)

lemma local_day_midnight: "zone_ok z \<Longrightarrow> local_day z (midnight z n) = n"
  by (simp add: midnight_eq zone_ok_day Day_mult)

lemma reach_arith:
  fixes t o1 o2 n k r' N :: int
  assumes "\<bar>o1\<bar> \<le> 86400000" "\<bar>o2\<bar> \<le> 86400000"
    "n * 86400000 \<le> t + o1" "t + o1 < n * 86400000 + 86400000"
    "\<bar>t\<bar> + (N + 10) * 86400000 \<le> 8640000000000000"
    "- (N + 5) \<le> k" "k \<le> 0" "0 \<le> r'" "r' < 86400000"
  shows "\<bar>n * 86400000 + k * 86400000 + r' - o2\<bar> \<le> 8640000000000000"
proof -
  have k1: "- (N + 5) * 86400000 \<le> k * 86400000" using assms(6) by simp
  have k2: "k * 86400000 \<le> 0" using assms(7) by simp
  have N1: "(N + 10) * 86400000 = N * 86400000 + 864000000" by simp
  have N2: "- (N + 5) * 86400000 = - (N * 86400000) - 432000000" by simp
  have N3: "0 \<le> N * 86400000 + 432000000" using assms(6,7) by simp
  show ?thesis using assms(1-5,8,9) k1 k2 N3 unfolding N1 N2 by linarith
qed

text \<open>Every local time that the window computations meet has an instant in the range.\<close>

lemma reach:
  assumes z: "zone_ok z" and r: "in_reach t N"
    and k: "- (N + 5) \<le> k" "k \<le> 0" and tau: "0 \<le> r'" "r' < msPerDay"
  shows "\<bar>UTC z ((local_day z t + k) * msPerDay + r')\<bar> \<le> maxTime"
proof -
  let ?n = "local_day z t"
  let ?l = "(?n + k) * msPerDay + r'"
  have o1: "\<bar>utc_offset z t\<bar> \<le> 86400000" using z by (simp add: zone_ok_def)
  have o2: "\<bar>local_offset z (?n * 86400000 + k * 86400000 + r')\<bar> \<le> 86400000"
    using z by (simp add: zone_ok_def)
  have b: "?n * 86400000 \<le> t + utc_offset z t" "t + utc_offset z t < ?n * 86400000 + 86400000"
    using day_bounds[of "LocalTime z t"]
    by (simp_all add: local_day_eq LocalTime_def msPerDay_def)
  have e: "?l = ?n * 86400000 + k * 86400000 + r'"
    by (simp add: msPerDay_def algebra_simps)
  have r1: "\<bar>t\<bar> + (N + 10) * 86400000 \<le> 8640000000000000"
    using r by (simp add: in_reach_def)
  have t2: "r' < 86400000" using tau by (simp add: msPerDay_def)
  show ?thesis
    unfolding UTC_def e maxTime_def by (rule reach_arith[OF o1 o2 b r1 k tau(1) t2])
qed

lemma addDate_local:
  assumes z: "zone_ok z" and r: "in_reach t0 N"
    and j: "local_day z t = local_day z t0 + j" and k: "- (N + 5) \<le> j + k" "j + k \<le> 0"
  shows "\<exists>t'. addDate z (Instant t) k = Instant t' \<and> local_day z t' = local_day z t0 + j + k"
proof -
  let ?r = "TimeWithinDay (LocalTime z t)"
  let ?l = "(local_day z t0 + (j + k)) * msPerDay + ?r"
  have d: "Day (LocalTime z t) + k = local_day z t0 + (j + k)"
    using j by (simp add: local_day_eq)
  have rng: "\<bar>UTC z ?l\<bar> \<le> maxTime"
    using reach[OF z r k] TimeWithinDay_range[of "LocalTime z t"] by simp
  have a: "addDate z (Instant t) k = Instant (UTC z ?l)"
    unfolding addDate_def jsdate.case d using rng by (simp add: TimeClip_def)
  have "local_day z (UTC z ?l) = local_day z t0 + (j + k)"
    using zone_ok_day[OF z, of ?l] Day_shift[of ?r "local_day z t0 + (j + k)"]
      TimeWithinDay_range[of "LocalTime z t"] by simp
  then show ?thesis using a by (simp add: add.assoc)
qed

lemma setHours0_local:
  assumes z: "zone_ok z" and r: "in_reach t0 N"
    and j: "local_day z t = local_day z t0 + j" and k: "- (N + 5) \<le> j" "j \<le> 0"
  shows "setHours0 z (Instant t) = Instant (midnight z (local_day z t0 + j))"
proof -
  have rng: "\<bar>UTC z ((local_day z t0 + j) * msPerDay + 0)\<bar> \<le> maxTime"
    using reach[OF z r k, of 0] msPerDay_pos by simp
  show ?thesis
    unfolding setHours0_def jsdate.case local_day_eq[symmetric] j midnight_eq
    using rng by (simp add: TimeClip_def)
qed

lemma weekday_of_range: "0 \<le> weekday_of n \<and> weekday_of n \<le> 6"
  by (simp add: weekday_of_def)

lemma week_shift_back:
  assumes W: "0 \<le> (W::int)" "W \<le> 6"
  shows "(g - (g - W + 7) mod 7) mod 7 = W"
proof -
  have "(g - (g - W + 7) mod 7) mod 7 = (g - (g - W + 7)) mod 7"
    by (simp only: mod_diff_right_eq)
  also have "g - (g - W + 7) = W + (-1) * 7" by simp
  also have "(W + (-1) * 7) mod 7 = W mod 7" by (simp only: mod_mult_self1)
  also have "\<dots> = W" using W by simp
  finally show ?thesis .
qed

lemma weekday_of_shift:
  assumes W: "0 \<le> W" "W \<le> 6"
  shows "weekday_of (n - (weekday_of n - W + 7) mod 7) = W"
proof -
  have "weekday_of (n - (weekday_of n - W + 7) mod 7)
      = ((n + 4) - (weekday_of n - W + 7) mod 7) mod 7"
    by (simp add: weekday_of_def algebra_simps)
  also have "\<dots> = ((n + 4) mod 7 - (weekday_of n - W + 7) mod 7) mod 7"
    by (simp only: mod_diff_left_eq)
  also have "\<dots> = W" unfolding weekday_of_def[symmetric] using W by (rule week_shift_back)
  finally show ?thesis .
qed

lemma js_rem_nonneg: "0 \<le> a \<Longrightarrow> 0 < b \<Longrightarrow> js_rem a b = a mod b"
  by (cases "a = 0") (simp_all add: js_rem_def)

lemma align_local:
  assumes z: "zone_ok z" and r: "in_reach t0 N"
    and j: "local_day z t = local_day z t0 + j" and k: "- (N + 5) \<le> j - 6" "j \<le> 0"
    and W: "0 \<le> W" "W \<le> 6"
  shows "align z (Instant t) W =
     Instant (midnight z (local_day z t0 + j - (weekday_of (local_day z t0 + j) - W + 7) mod 7))"
proof -
  let ?s = "(weekday_of (local_day z t0 + j) - W + 7) mod 7"
  have s: "0 \<le> ?s" "?s \<le> 6" by simp_all
  have js: "js_rem (getDay z t - W + 7) 7 = ?s"
    unfolding getDay_eq j using weekday_of_range[of "local_day z t0 + j"] W
    by (intro js_rem_nonneg) auto
  have c: "- (N + 5) \<le> j + (- ?s)" "j + (- ?s) \<le> 0" using k s by linarith+
  obtain t' where t': "addDate z (Instant t) (- ?s) = Instant t'"
      "local_day z t' = local_day z t0 + j + (- ?s)"
    using addDate_local[OF z r j c] by blast
  have t'': "local_day z t' = local_day z t0 + (j + (- ?s))" using t'(2) by simp
  have "setHours0 z (Instant t') = Instant (midnight z (local_day z t0 + (j + (- ?s))))"
    by (rule setHours0_local[OF z r t'' c])
  then show ?thesis
    unfolding align_def jsdate.case Let_def js t'(1) by (simp add: algebra_simps)
qed

text \<open>The chain of the proxy call and of the handler, from an instant to the aligned start.\<close>

lemma window_chain:
  assumes z: "zone_ok z" and r: "in_reach t N" and N: "0 < N" and W: "0 \<le> W" "W \<le> 6"
  shows "setHours0 z (Instant t) = Instant (midnight z (local_day z t))"
    and "align z (setHours0 z (addDate z (setHours0 z (Instant t)) (- (N - 1)))) W =
      Instant (spec_from z (local_day z t) N W)"
proof -
  let ?n = "local_day z t"
  show a: "setHours0 z (Instant t) = Instant (midnight z ?n)"
    using setHours0_local[OF z r, of t 0] N by simp
  have m: "local_day z (midnight z ?n) = ?n + 0"
    using local_day_midnight[OF z] by simp
  have c1: "- (N + 5) \<le> 0 + (- (N - 1))" "0 + (- (N - 1)) \<le> 0" using N by linarith+
  obtain t1 where t1: "addDate z (Instant (midnight z ?n)) (- (N - 1)) = Instant t1"
      "local_day z t1 = ?n + 0 + (- (N - 1))"
    using addDate_local[OF z r m c1] by blast
  have t1': "local_day z t1 = ?n + (- (N - 1))" using t1(2) by simp
  have c2: "- (N + 5) \<le> - (N - 1)" "- (N - 1) \<le> 0" using N by linarith+
  have b: "setHours0 z (Instant t1) = Instant (midnight z (?n + (- (N - 1))))"
    by (rule setHours0_local[OF z r t1' c2])
  have m2: "local_day z (midnight z (?n + (- (N - 1)))) = ?n + (- (N - 1))"
    by (rule local_day_midnight[OF z])
  have c3: "- (N + 5) \<le> - (N - 1) - 6" by simp
  have c: "align z (Instant (midnight z (?n + (- (N - 1))))) W =
      Instant (midnight z (?n + (- (N - 1)) - (weekday_of (?n + (- (N - 1))) - W + 7) mod 7))"
    by (rule align_local[OF z r m2 c3 c2(2) W])
  show "align z (setHours0 z (addDate z (setHours0 z (Instant t)) (- (N - 1)))) W =
      Instant (spec_from z ?n N W)"
    unfolding a t1(1) b c spec_from_def spec_shift_def by (simp add: algebra_simps)
qed


lemma spec_from_props:
  assumes z: "zone_ok z" and W: "0 \<le> W" "W \<le> 6"
  shows "local_day z (spec_from z n N W) = n - (N - 1) - spec_shift n N W"
    and "weekday_of (local_day z (spec_from z n N W)) = W"
    and "0 \<le> spec_shift n N W" and "spec_shift n N W \<le> 6"
proof -
  show a: "local_day z (spec_from z n N W) = n - (N - 1) - spec_shift n N W"
    unfolding spec_from_def by (rule local_day_midnight[OF z])
  show "weekday_of (local_day z (spec_from z n N W)) = W"
    unfolding a spec_shift_def by (rule weekday_of_shift[OF W])
  show "0 \<le> spec_shift n N W" "spec_shift n N W \<le> 6"
    by (simp_all add: spec_shift_def)
qed

lemma midnight_constant:
  assumes "\<forall>x. utc_offset z x = c \<and> local_offset z x = c"
  shows "midnight z a - midnight z b = (a - b) * 86400000"
  using assms by (simp add: midnight_def algebra_simps)

lemma widget_window_aligned:
  assumes z: "zone_ok z" and r: "in_reach now N" and N: "0 < N" and W: "W = 0 \<or> W = 1"
    and o: "daysToShow opts = N" "weekStart opts = W"
  shows "widget_window z now opts =
     Inr \<lparr> from_date = spec_from z (local_day z now) N W, to_date = midnight z (local_day z now) \<rparr>"
proof -
  have N': "or_default N 167 = N" using N by (simp add: or_default_def)
  have W': "or_default W 0 = W" by (simp add: or_default_def)
  have W6: "0 \<le> W" "W \<le> 6" using W by auto
  note c = window_chain[OF z r N W6]
  have c2: "align z (setHours0 z (addDate z (Instant (midnight z (local_day z now))) (- (N - 1)))) W =
      Instant (spec_from z (local_day z now) N W)"
    using c(2) unfolding c(1) .
  show ?thesis
    unfolding widget_window_def Let_def o N' W' c(1) c2
    by (simp only: toISOString_def jsdate.case sum.case)
qed

lemma from_of_days_aligned:
  assumes z: "zone_ok z" and r: "in_reach t N" and N: "0 < N" and W: "W = 0 \<or> W = 1"
    and q: "q_days q = Some (Num N)" "q_weekStart q = Some (Num W)"
  shows "from_of_days z (Instant t) q = Some (Inr (spec_from z (local_day z t) N W))"
proof -
  have W6: "0 \<le> W" "W \<le> 6" using W by auto
  note c = window_chain[OF z r N W6]
  have "from_of_days z (Instant t) q =
      Some (toISOString (if W = 0 \<or> W = 1
        then align z (setHours0 z (addDate z (setHours0 z (Instant t)) (- (N - 1)))) W
        else setHours0 z (addDate z (setHours0 z (Instant t)) (- (N - 1)))))"
    using N by (simp only: from_of_days_def Let_def q option.case jsnum.case if_True)
  then show ?thesis using W by (simp only: c(2) toISOString_def jsdate.case if_True)
qed

lemma resolve_window_days:
  assumes z: "zone_ok z" and r: "in_reach (handler_to z now q) N" and N: "0 < N"
    and W: "W = 0 \<or> W = 1"
    and q: "q_days q = Some (Num N)" "q_weekStart q = Some (Num W)"
    and t: "q_to q \<noteq> Some InvalidDate"
  shows "resolve_window z now yb q =
     Inr (Instant (spec_from z (local_day z (handler_to z now q)) N W), Instant (handler_to z now q))"
proof -
  have toISO: "(case q_to q of
                 Some d \<Rightarrow> Inr d
               | None \<Rightarrow> (case toISOString (setHours0 z (Instant now)) of
                            Inl e \<Rightarrow> Inl e | Inr t \<Rightarrow> Inr (Instant t)))
      = (Inr (Instant (handler_to z now q)) :: exn + jsdate)"
  proof (cases "q_to q")
    case None
    then have h: "handler_to z now q = midnight z (local_day z now)"
      by (simp add: handler_to_def)
    have "\<bar>midnight z (local_day z now)\<bar> + (N + 10) * 86400000 \<le> 8640000000000000"
      using r unfolding h in_reach_def .
    moreover have "0 \<le> (N + 10) * 86400000" using N by simp
    ultimately have "\<bar>midnight z (local_day z now)\<bar> \<le> maxTime"
      unfolding maxTime_def by linarith
    then have "setHours0 z (Instant now) = Instant (midnight z (local_day z now))"
      by (simp add: setHours0_def TimeClip_def midnight_eq local_day_eq)
    then show ?thesis using None h by (simp add: toISOString_def)
  next
    case (Some d)
    then show ?thesis using t by (cases d) (simp_all add: handler_to_def)
  qed
  note f = from_of_days_aligned[OF z r N W q]
  show ?thesis
    by (simp only: resolve_window_def Let_def toISO f sum.case option.case)
qed

text \<open>
  C1. For a positive day count \<open>N\<close> and a week start \<open>W\<close> of 0 or 1, the widget's proxy
  call and the handler compute the same \<open>from\<close>: the start of the local day that lies
  \<open>N - 1\<close> days and then \<open>((to - (N-1) days).weekday - W + 7) mod 7\<close> days before the day
  of \<open>to\<close>. Its weekday is \<open>W\<close>, and \<open>to - from\<close> is \<open>N - 1 + shift\<close> calendar days with the
  shift between 0 and 6. In the widget \<open>to\<close> is the start of today; in the handler it is
  the \<open>to\<close> supplied, or the start of today. Where the zone has one offset, the start of
  the day of \<open>to\<close> and \<open>from\<close> are \<open>N - 1 + shift\<close> times 24 hours apart. The statement is
  for dates in the range of \<^verbatim>\<open>Date\<close> and zones that skip no local day.
\<close>

theorem window_alignment:
  assumes "0 < N" and "W = 0 \<or> W = 1"
    and "zone_ok z" and "in_reach now N"
    and "daysToShow opts = N" and "weekStart opts = W"
    and "zone_ok z'" and "in_reach (handler_to z' now' q) N"
    and "q_days q = Some (Num N)" and "q_weekStart q = Some (Num W)"
    and "q_to q \<noteq> Some InvalidDate"
  shows "(let today = midnight z (local_day z now);
              shift = spec_shift (local_day z now) N W;
              start = midnight z (local_day z now - (N - 1) - shift)
          in widget_window z now opts = Inr \<lparr> from_date = start, to_date = today \<rparr>
           \<and> local_day z today = local_day z now
           \<and> weekday_of (local_day z start) = W
           \<and> local_day z today - local_day z start = N - 1 + shift
           \<and> 0 \<le> shift \<and> shift \<le> 6
           \<and> ((\<forall>x. utc_offset z x = c \<and> local_offset z x = c) \<longrightarrow>
                 today - start = (N - 1 + shift) * 86400000))
       \<and> (let to' = handler_to z' now' q;
               shift = spec_shift (local_day z' to') N W;
               start = midnight z' (local_day z' to' - (N - 1) - shift)
           in resolve_window z' now' yb q = Inr (Instant start, Instant to')
            \<and> weekday_of (local_day z' start) = W
            \<and> local_day z' to' - local_day z' start = N - 1 + shift
            \<and> 0 \<le> shift \<and> shift \<le> 6
            \<and> ((\<forall>x. utc_offset z' x = c' \<and> local_offset z' x = c') \<longrightarrow>
                  midnight z' (local_day z' to') - start = (N - 1 + shift) * 86400000))"
proof -
  have W6: "0 \<le> W" "W \<le> 6" using assms(2) by auto
  let ?n = "local_day z now"
  let ?s = "spec_shift ?n N W"
  note p = spec_from_props[OF assms(3) W6, of ?n N, unfolded spec_from_def]
  have w1: "widget_window z now opts =
      Inr \<lparr> from_date = midnight z (?n - (N - 1) - ?s), to_date = midnight z ?n \<rparr>"
    using widget_window_aligned[OF assms(3,4,1,2,5,6)] by (simp add: spec_from_def)
  have w2: "local_day z (midnight z ?n) = ?n" by (rule local_day_midnight[OF assms(3)])
  have w4: "local_day z (midnight z ?n) - local_day z (midnight z (?n - (N - 1) - ?s)) = N - 1 + ?s"
    unfolding w2 p(1) by simp
  have w5: "(\<forall>x. utc_offset z x = c \<and> local_offset z x = c) \<longrightarrow>
      midnight z ?n - midnight z (?n - (N - 1) - ?s) = (N - 1 + ?s) * 86400000"
    using midnight_constant[of z c ?n "?n - (N - 1) - ?s"] by simp
  let ?t = "handler_to z' now' q"
  let ?m = "local_day z' ?t"
  let ?s' = "spec_shift ?m N W"
  note p' = spec_from_props[OF assms(7) W6, of ?m N, unfolded spec_from_def]
  have h1: "resolve_window z' now' yb q =
      Inr (Instant (midnight z' (?m - (N - 1) - ?s')), Instant ?t)"
    using resolve_window_days[OF assms(7,8,1,2,9,10,11), of yb] by (simp add: spec_from_def)
  have h4: "?m - local_day z' (midnight z' (?m - (N - 1) - ?s')) = N - 1 + ?s'"
    unfolding p'(1) by simp
  have h5: "(\<forall>x. utc_offset z' x = c' \<and> local_offset z' x = c') \<longrightarrow>
      midnight z' ?m - midnight z' (?m - (N - 1) - ?s') = (N - 1 + ?s') * 86400000"
    using midnight_constant[of z' c' ?m "?m - (N - 1) - ?s'"] by simp
  show ?thesis
    unfolding Let_def
    by (intro conjI w1 w2 p(2) w4 p(3) p(4) w5 h1 p'(2) h4 p'(3) p'(4) h5)
qed

lemma Day_unique:
  fixes k x :: int
  assumes "k * 86400000 \<le> x" and "x < k * 86400000 + 86400000"
  shows "x div 86400000 = k"
proof -
  have "Day (k * msPerDay + (x - k * 86400000)) = k"
    using assms by (intro Day_shift) (simp_all add: msPerDay_def)
  then show ?thesis by (simp add: Day_def msPerDay_def)
qed

lemma zone_ok_fixed: "\<bar>c\<bar> \<le> 86400000 \<Longrightarrow> zone_ok (fixed_zone c)"
  by (simp add: zone_ok_def fixed_zone_def local_day_def)

lemma zone_ok_london: "zone_ok london"
proof -
  have "local_day london (l - local_offset london l) = l div 86400000" for l
  proof -
    consider (before) "l < 1711846800000" | (gap) "1711846800000 \<le> l" "l < 1711850400000"
      | (after) "1711850400000 \<le> l" by linarith
    then show ?thesis
    proof cases
      case before
      then show ?thesis by (simp add: london_def changing_zone_def local_day_def)
    next
      case gap
      have a: "l div 86400000 = 19813" using gap by (intro Day_unique) simp_all
      have b: "(l + 3600000) div 86400000 = 19813" using gap by (intro Day_unique) simp_all
      show ?thesis using gap by (simp add: london_def changing_zone_def local_day_def a b)
    next
      case after
      then show ?thesis by (simp add: london_def changing_zone_def local_day_def)
    qed
  qed
  then show ?thesis
    by (simp add: zone_ok_def) (simp add: london_def changing_zone_def)
qed

theorem window_alignment_witness:
  "widget_window london 1712052000000 (default_options\<lparr> daysToShow := 3 \<rparr>) =
     Inr \<lparr> from_date = 1711843200000, to_date = 1712012400000 \<rparr>
   \<and> local_day london 1712012400000 - local_day london 1711843200000 = 2
   \<and> weekday_of (local_day london 1711843200000) = 0
   \<and> (1712012400000 :: int) - 1711843200000 = 2 * 86400000 - 3600000
   \<and> resolve_window (fixed_zone 0) 1712052000000 (\<lambda>t. t)
        (no_query\<lparr> q_to := Some (Instant 1712012400000), q_days := Some (Num 3),
                    q_weekStart := Some (Num 0) \<rparr>) =
      Inr (Instant 1711238400000, Instant 1712012400000)
   \<and> (1711929600000 :: int) - 1711238400000 = 8 * 86400000"
proof -
  let ?opts = "default_options\<lparr> daysToShow := 3 \<rparr>"
  let ?q = "no_query\<lparr> q_to := Some (Instant 1712012400000), q_days := Some (Num 3),
                    q_weekStart := Some (Num 0) \<rparr>"
  have h: "(0::int) < 3" "(0::int) = 0 \<or> (0::int) = 1" by simp_all
  have o: "daysToShow ?opts = 3" "weekStart ?opts = 0"
    by (simp_all add: default_options_def)
  have q: "q_days ?q = Some (Num 3)" "q_weekStart ?q = Some (Num 0)" "q_to ?q \<noteq> Some InvalidDate"
    by (simp_all add: no_query_def)
  have t: "handler_to (fixed_zone 0) 1712052000000 ?q = 1712012400000"
    by (simp add: handler_to_def no_query_def)
  have r: "in_reach 1712052000000 3" "in_reach (handler_to (fixed_zone 0) 1712052000000 ?q) 3"
    unfolding t by (simp_all add: in_reach_def)
  have zu: "zone_ok (fixed_zone 0)" by (rule zone_ok_fixed) simp
  have n: "local_day london 1712052000000 = 19815"
    by (simp add: local_day_def london_def changing_zone_def)
  have s: "spec_shift 19815 3 0 = 0"
    by (simp add: spec_shift_def weekday_of_def)
  have m: "midnight london 19815 = 1712012400000" "midnight london 19813 = 1711843200000"
    by (simp_all add: midnight_def london_def changing_zone_def)
  have l: "local_day london 1712012400000 = 19815" "local_day london 1711843200000 = 19813"
    by (simp_all add: local_day_def london_def changing_zone_def)
  have n': "local_day (fixed_zone 0) 1712012400000 = 19814"
    by (simp add: local_day_def fixed_zone_def)
  have s': "spec_shift 19814 3 0 = 6"
    by (simp add: spec_shift_def weekday_of_def)
  have m': "midnight (fixed_zone 0) 19806 = 1711238400000"
    by (simp add: midnight_def fixed_zone_def)
  show ?thesis
    using window_alignment[OF h zone_ok_london r(1) o zu r(2) q, of 0 "\<lambda>t. t" 0]
    unfolding Let_def t n s n' s' by (simp add: m l m' weekday_of_def)
qed

text \<open>Outside the range of dates the window is not computed: printing the date raises.\<close>

lemma window_out_of_range:
  "widget_window (fixed_zone 0) 1704880800000 (default_options\<lparr> daysToShow := 200000000 \<rparr>) =
     Inl RangeError"
  "resolve_window (fixed_zone 0) 1704880800000 yb (no_query\<lparr> q_days := Some (Num 200000000) \<rparr>) =
     Inl RangeError"
  by (simp_all add: widget_window_def resolve_window_def from_of_days_def no_query_def Let_def
      default_options_def or_default_def setHours0_def addDate_def align_def toISOString_def
      TimeClip_def LocalTime_def UTC_def Day_def TimeWithinDay_def fixed_zone_def
      msPerDay_def maxTime_def)

section \<open>Levels\<close>

text \<open>
  C4. getContributionLevel returns 0 for a falsy count; 1 for a count that is not falsy
  with a falsy maximum; otherwise 1, 2, 3 or 4 as the ratio is at most 0.25, at most 0.5,
  at most 0.75, or larger. So the level of count 0 is 0, the level of a positive count
  with maximum 0 is 1, the level of the maximum itself is 4, and every level is in
  \<open>{0,1,2,3,4}\<close>. The ratio tests are stated for counts of at most \<open>2^53\<close> and maxima
  below \<open>2^52\<close> in magnitude, where the quotient of the doubles compares as the exact
  quotient does.
\<close>

theorem contribution_level:
  "(falsy c \<longrightarrow> getContributionLevel c m = 0)
   \<and> (\<not> falsy c \<and> falsy m \<longrightarrow> getContributionLevel c m = 1)
   \<and> (c = Some k \<and> m = Some n \<and> k \<noteq> 0 \<and> n \<noteq> 0
        \<and> \<bar>k\<bar> \<le> 9007199254740992 \<and> \<bar>n\<bar> < 4503599627370496 \<longrightarrow>
        getContributionLevel c m =
          (let ratio = real_of_int k / real_of_int n
           in if ratio \<le> 1 / 4 then 1 else if ratio \<le> 1 / 2 then 2
              else if ratio \<le> 3 / 4 then 3 else 4))
   \<and> (0 < k \<and> k \<le> 9007199254740992 \<and> 0 < n \<and> n < 4503599627370496 \<longrightarrow>
        getContributionLevel (Some k) (Some n) =
          (if 4 * k \<le> n then 1 else if 2 * k \<le> n then 2 else if 4 * k \<le> 3 * n then 3 else 4))
   \<and> getContributionLevel (Some 0) m = 0
   \<and> (0 < k \<longrightarrow> getContributionLevel (Some k) (Some 0) = 1)
   \<and> (0 < n \<longrightarrow> getContributionLevel (Some n) (Some n) = 4)
   \<and> getContributionLevel c m \<in> {0, 1, 2, 3, 4}"
proof -
  have 1: "falsy c \<longrightarrow> getContributionLevel c m = 0"
    by (simp add: getContributionLevel_def)
  have 2: "\<not> falsy c \<and> falsy m \<longrightarrow> getContributionLevel c m = 1"
    by (auto simp add: getContributionLevel_def falsy_def)
  have 3: "c = Some k \<and> m = Some n \<and> k \<noteq> 0 \<and> n \<noteq> 0
        \<and> \<bar>k\<bar> \<le> 9007199254740992 \<and> \<bar>n\<bar> < 4503599627370496 \<longrightarrow>
        getContributionLevel c m =
          (let ratio = real_of_int k / real_of_int n
           in if ratio \<le> 1 / 4 then 1 else if ratio \<le> 1 / 2 then 2
              else if ratio \<le> 3 / 4 then 3 else 4)"
    by (auto simp add: getContributionLevel_def falsy_def Let_def)
  have 4: "0 < k \<and> k \<le> 9007199254740992 \<and> 0 < n \<and> n < 4503599627370496 \<longrightarrow>
        getContributionLevel (Some k) (Some n) =
          (if 4 * k \<le> n then 1 else if 2 * k \<le> n then 2 else if 4 * k \<le> 3 * n then 3 else 4)"
  proof
    assume kn: "0 < k \<and> k \<le> 9007199254740992 \<and> 0 < n \<and> n < 4503599627370496"
    then have n: "0 < real_of_int n" by simp
    have a: "real_of_int k / real_of_int n \<le> 0.25 \<longleftrightarrow> 4 * k \<le> n"
      using n by (simp add: field_simps) linarith
    have b: "real_of_int k / real_of_int n \<le> 0.5 \<longleftrightarrow> 2 * k \<le> n"
      using n by (simp add: field_simps) linarith
    have c: "real_of_int k / real_of_int n \<le> 0.75 \<longleftrightarrow> 4 * k \<le> 3 * n"
      using n by (simp add: field_simps) linarith
    show "getContributionLevel (Some k) (Some n) =
          (if 4 * k \<le> n then 1 else if 2 * k \<le> n then 2 else if 4 * k \<le> 3 * n then 3 else 4)"
      using kn unfolding getContributionLevel_def Let_def option.sel a b c
      by (simp add: falsy_def)
  qed
  have 5: "getContributionLevel (Some 0) m = 0"
    by (simp add: getContributionLevel_def)
  have 6: "0 < k \<longrightarrow> getContributionLevel (Some k) (Some 0) = 1"
    by (simp add: getContributionLevel_def falsy_def)
  have 7: "0 < n \<longrightarrow> getContributionLevel (Some n) (Some n) = 4"
    by (simp add: getContributionLevel_def falsy_def)
  have 8: "getContributionLevel c m \<in> {0, 1, 2, 3, 4}"
    by (simp add: getContributionLevel_def Let_def)
  show ?thesis using 1 2 3 4 5 6 7 8 by blast
qed

theorem contribution_level_witness:
  "getContributionLevel None (Some 12) = 0
   \<and> getContributionLevel (Some 5) None = 1
   \<and> getContributionLevel (Some 3) (Some 12) = 1
   \<and> getContributionLevel (Some 7) (Some 12) = 3
   \<and> getContributionLevel (Some 5) (Some 0) = 1
   \<and> getContributionLevel (Some 12) (Some 12) = 4"
  using contribution_level[of None "Some 12" 3 12] contribution_level[of "Some 5" None 7 12]
    contribution_level[of "Some 7" "Some 12" 5 12]
  by (simp add: falsy_def)

section \<open>Sorting by date\<close>

lemma by_date_less: "by_date x y < 0 \<longleftrightarrow> date x < date y"
  by (simp add: by_date_def)

lemma mset_insert_sorted: "mset (insert_sorted cmp x ys) = add_mset x (mset ys)"
  by (induction ys) auto

lemma set_insert_sorted: "set (insert_sorted cmp x ys) = insert x (set ys)"
  by (induction ys) auto

lemma sorted_insert_sorted:
  "sorted (map date ys) \<Longrightarrow> sorted (map date (insert_sorted by_date x ys))"
  by (induction ys) (auto simp: by_date_less set_insert_sorted)

lemma filter_insert_sorted:
  "sorted (map date ys) \<Longrightarrow>
   filter (\<lambda>y. date y = k) (insert_sorted by_date x ys) =
   filter (\<lambda>y. date y = k) ys @ (if date x = k then [x] else [])"
proof (induction ys)
  case Nil
  then show ?case by simp
next
  case (Cons y ys)
  show ?case
  proof (cases "date x < date y")
    case True
    have "\<forall>z \<in> set (y # ys). date x < date z"
      using Cons.prems True by auto
    then have "date x = k \<Longrightarrow> filter (\<lambda>y. date y = k) (y # ys) = []"
      by (auto simp: filter_empty_conv)
    then show ?thesis using True by (auto simp: by_date_less)
  next
    case False
    then show ?thesis using Cons by (auto simp: by_date_less)
  qed
qed

lemma foldl_insert_sorted:
  assumes "sorted (map date acc)"
  shows "sorted (map date (foldl (\<lambda>s x. insert_sorted by_date x s) acc xs))
    \<and> mset (foldl (\<lambda>s x. insert_sorted by_date x s) acc xs) = mset acc + mset xs
    \<and> filter (\<lambda>y. date y = k) (foldl (\<lambda>s x. insert_sorted by_date x s) acc xs) =
        filter (\<lambda>y. date y = k) acc @ filter (\<lambda>y. date y = k) xs"
  using assms
proof (induction xs arbitrary: acc)
  case Nil
  then show ?case by simp
next
  case (Cons x xs)
  have s: "sorted (map date (insert_sorted by_date x acc))"
    using Cons.prems by (rule sorted_insert_sorted)
  show ?case
    using Cons.IH[OF s] Cons.prems
    by (simp add: mset_insert_sorted filter_insert_sorted)
qed

lemma array_sort_by_date: "array_sort by_date xs = sort_key date xs"
proof (rule sym, rule properties_for_sort_key)
  have f: "sorted (map date (foldl (\<lambda>s x. insert_sorted by_date x s) [] xs))
    \<and> mset (foldl (\<lambda>s x. insert_sorted by_date x s) [] xs) = mset xs
    \<and> filter (\<lambda>y. date y = k) (foldl (\<lambda>s x. insert_sorted by_date x s) [] xs) =
        filter (\<lambda>y. date y = k) xs" for k
    using foldl_insert_sorted[of "[]" xs k] by simp
  show "mset (array_sort by_date xs) = mset xs"
    using f by (simp add: array_sort_def)
  show "sorted (map date (array_sort by_date xs))"
    using f by (simp add: array_sort_def)
  fix k assume "k \<in> set (array_sort by_date xs)"
  have "filter (\<lambda>y. date y = date k) (array_sort by_date xs) = filter (\<lambda>y. date y = date k) xs"
    using f[of "date k"] by (simp add: array_sort_def)
  then show "filter (\<lambda>x. date k = date x) (array_sort by_date xs) = filter (\<lambda>x. date k = date x) xs"
    by (simp add: eq_commute)
qed


lemma sorted_permutation_unique:
  assumes "sorted (map date xs)" and "distinct (map date xs)"
    and "mset ys = mset xs" and "sorted (map date ys)"
  shows "ys = xs"
proof -
  have m: "mset (map date ys) = mset (map date xs)" using assms(3) by simp
  have d: "distinct (map date ys)" using assms(2) m by (metis mset_eq_imp_distinct_iff)
  have "set (map date ys) = set (map date xs)" using m by (metis set_mset_mset)
  then have e: "map date ys = map date xs"
    using assms(1,4) assms(2) d by (intro sorted_distinct_set_unique) auto
  have s: "set ys = set xs" using assms(3) by (metis set_mset_mset)
  have "inj_on date (set xs)" using assms(2) by (simp add: distinct_map)
  then have "inj_on date (set ys \<union> set xs)" using s by simp
  then show ?thesis using e by (simp add: inj_on_map_eq_map)
qed

text \<open>
  C8. Sorting a list of contribution days that is already ascending by date, with unique
  dates, by the widget's comparator leaves the list as it is. Moreover no other
  arrangement of the same days is ascending by date, so the result does not depend on
  the sorting algorithm of the engine.
\<close>

theorem idempotent_sort:
  assumes "sorted (map date xs)" and "distinct (map date xs)"
  shows "array_sort by_date xs = xs
    \<and> (\<forall>ys. mset ys = mset xs \<and> sorted (map date ys) \<longrightarrow> ys = xs)"
  using assms sorted_permutation_unique[OF assms]
  by (simp add: array_sort_by_date sort_key_id_if_sorted)

theorem idempotent_sort_witness:
  "array_sort by_date
     [\<lparr>date = ''2024-01-01'', count = 2\<rparr>, \<lparr>date = ''2024-01-02'', count = 0\<rparr>,
      \<lparr>date = ''2024-01-03'', count = 7\<rparr>] =
     [\<lparr>date = ''2024-01-01'', count = 2\<rparr>, \<lparr>date = ''2024-01-02'', count = 0\<rparr>,
      \<lparr>date = ''2024-01-03'', count = 7\<rparr>]"
  using idempotent_sort[of "[\<lparr>date = ''2024-01-01'', count = 2\<rparr>, \<lparr>date = ''2024-01-02'', count = 0\<rparr>,
      \<lparr>date = ''2024-01-03'', count = 7\<rparr>]"]
  by simp

section \<open>The days returned by the proxy\<close>

lemma flatten_weeks_flat:
  "\<forall>w \<in> set weeks. contributionDays w \<noteq> None \<Longrightarrow>
   flatten_weeks weeks acc = Inr (acc @ flat_days weeks)"
  by (induction weeks arbitrary: acc) (auto simp: flat_days_def)

lemma flatten_weeks_raises:
  "\<exists>w \<in> set weeks. contributionDays w = None \<Longrightarrow> flatten_weeks weeks acc = Inl TypeError"
  by (induction weeks arbitrary: acc) (auto split: option.splits)

lemma limit_days_positive:
  "0 < N \<Longrightarrow> limit_days (Some (Num N)) xs = drop (length xs - nat N) xs"
  by (auto simp: limit_days_def nat_diff_distrib')

text \<open>
  C2. For a request with a positive day count \<open>N\<close>: the proxy's flattened list, sorted
  ascending by date, is returned as it is when it has \<open>N\<close> entries or fewer, and
  otherwise its last \<open>N\<close> entries are returned. Nothing else shortens the list: without a
  positive day count smaller than the length, the whole ascending list is returned.
\<close>

theorem proxy_truncation:
  assumes "0 < N" and "\<forall>w \<in> set weeks. contributionDays w \<noteq> None"
  shows "(let asc = array_sort by_date (flat_days weeks)
          in sorted (map date asc) \<and> mset asc = mset (flat_days weeks)
           \<and> (int (length asc) > N \<longrightarrow>
                proxy_days weeks (Some (Num N)) = Inr (drop (length asc - nat N) asc)
                \<and> length (drop (length asc - nat N) asc) = nat N)
           \<and> (int (length asc) \<le> N \<longrightarrow> proxy_days weeks (Some (Num N)) = Inr asc)
           \<and> (\<forall>qd. (\<forall>n. qd = Some (Num n) \<longrightarrow> n \<le> 0 \<or> int (length asc) \<le> n)
                \<longrightarrow> proxy_days weeks qd = Inr asc))"
proof -
  let ?asc = "array_sort by_date (flat_days weeks)"
  have f: "flatten_weeks weeks [] = Inr (flat_days weeks)"
    using flatten_weeks_flat[OF assms(2), of "[]"] by simp
  have p: "proxy_days weeks qd = Inr (limit_days qd ?asc)" for qd
    by (simp add: proxy_days_def f)
  have 1: "sorted (map date ?asc)" by (simp add: array_sort_by_date)
  have 2: "mset ?asc = mset (flat_days weeks)" by (simp add: array_sort_by_date)
  have 3: "int (length ?asc) > N \<longrightarrow>
                proxy_days weeks (Some (Num N)) = Inr (drop (length ?asc - nat N) ?asc)
                \<and> length (drop (length ?asc - nat N) ?asc) = nat N"
    using assms(1) by (auto simp: p limit_days_positive)
  have 4: "int (length ?asc) \<le> N \<longrightarrow> proxy_days weeks (Some (Num N)) = Inr ?asc"
    using assms(1) by (auto simp: p limit_days_def)
  have 5: "\<forall>qd. (\<forall>n. qd = Some (Num n) \<longrightarrow> n \<le> 0 \<or> int (length ?asc) \<le> n)
                \<longrightarrow> proxy_days weeks qd = Inr ?asc"
    by (auto simp: p limit_days_def split: option.splits jsnum.splits)
  show ?thesis unfolding Let_def using 1 2 3 4 5 by blast
qed

text \<open>
  C3, amended. The proxy sorts its flattened day list ascending by date (a stable sort)
  before the truncation: for a positive day count \<open>N\<close>, its output is the last \<open>N\<close>
  entries of the date-sorted sequence, whatever the order of the payload.
\<close>

theorem proxy_sorts_before_truncation:
  assumes "0 < N" and "\<forall>w \<in> set weeks. contributionDays w \<noteq> None"
  shows "proxy_days weeks (Some (Num N)) =
     Inr (drop (length (flat_days weeks) - nat N) (sort_key date (flat_days weeks)))"
proof -
  have f: "flatten_weeks weeks [] = Inr (flat_days weeks)"
    using flatten_weeks_flat[OF assms(2), of "[]"] by simp
  show ?thesis
    using assms(1) by (simp add: proxy_days_def f limit_days_positive array_sort_by_date)
qed


lemma sample_weeks_flat:
  "flat_days sample_weeks =
     [\<lparr>date = ''2024-01-08'', count = 3\<rparr>, \<lparr>date = ''2024-01-09'', count = 1\<rparr>,
      \<lparr>date = ''2024-01-01'', count = 5\<rparr>, \<lparr>date = ''2024-01-02'', count = 0\<rparr>]"
  by (simp add: sample_weeks_def flat_days_def)

lemma sample_weeks_sorted:
  "array_sort by_date (flat_days sample_weeks) =
     [\<lparr>date = ''2024-01-01'', count = 5\<rparr>, \<lparr>date = ''2024-01-02'', count = 0\<rparr>,
      \<lparr>date = ''2024-01-08'', count = 3\<rparr>, \<lparr>date = ''2024-01-09'', count = 1\<rparr>]"
  by (simp add: sample_weeks_flat array_sort_def by_date_def)

lemma sample_weeks_days: "\<forall>w \<in> set sample_weeks. contributionDays w \<noteq> None"
  by (simp add: sample_weeks_def)

theorem proxy_truncation_witness:
  "proxy_days sample_weeks (Some (Num 3)) =
     Inr [\<lparr>date = ''2024-01-02'', count = 0\<rparr>, \<lparr>date = ''2024-01-08'', count = 3\<rparr>,
          \<lparr>date = ''2024-01-09'', count = 1\<rparr>]
   \<and> proxy_days sample_weeks (Some (Num 4)) =
     Inr [\<lparr>date = ''2024-01-01'', count = 5\<rparr>, \<lparr>date = ''2024-01-02'', count = 0\<rparr>,
          \<lparr>date = ''2024-01-08'', count = 3\<rparr>, \<lparr>date = ''2024-01-09'', count = 1\<rparr>]
   \<and> proxy_days sample_weeks None =
     Inr [\<lparr>date = ''2024-01-01'', count = 5\<rparr>, \<lparr>date = ''2024-01-02'', count = 0\<rparr>,
          \<lparr>date = ''2024-01-08'', count = 3\<rparr>, \<lparr>date = ''2024-01-09'', count = 1\<rparr>]"
proof -
  have h3: "(0::int) < 3" and h4: "(0::int) < 4" by simp_all
  show ?thesis
    using proxy_truncation[OF h3 sample_weeks_days] proxy_truncation[OF h4 sample_weeks_days]
    unfolding Let_def sample_weeks_sorted by simp
qed

theorem proxy_sorts_before_truncation_witness:
  "proxy_days sample_weeks (Some (Num 2)) =
     Inr [\<lparr>date = ''2024-01-08'', count = 3\<rparr>, \<lparr>date = ''2024-01-09'', count = 1\<rparr>]"
proof -
  have h: "(0::int) < 2" by simp
  show ?thesis
    using proxy_sorts_before_truncation[OF h sample_weeks_days]
    by (simp add: array_sort_by_date[symmetric] sample_weeks_sorted) (simp add: sample_weeks_flat)
qed

text \<open>
  C3 as stated fails: on a payload whose weeks are out of order, the output is not the
  last two entries of the unsorted sequence, but those of the sorted one.
\<close>

theorem proxy_unsorted_counterexample:
  "proxy_days sample_weeks (Some (Num 2)) \<noteq>
     Inr (drop (length (flat_days sample_weeks) - 2) (flat_days sample_weeks))
   \<and> proxy_days sample_weeks (Some (Num 2)) =
     Inr (drop (length (flat_days sample_weeks) - 2) (array_sort by_date (flat_days sample_weeks)))"
proof -
  have f: "flatten_weeks sample_weeks [] = Inr (flat_days sample_weeks)"
    using flatten_weeks_flat[OF sample_weeks_days, of "[]"] by simp
  have p: "proxy_days sample_weeks (Some (Num 2)) =
      Inr [\<lparr>date = ''2024-01-08'', count = 3\<rparr>, \<lparr>date = ''2024-01-09'', count = 1\<rparr>]"
    by (simp add: proxy_days_def f sample_weeks_sorted limit_days_def)
  show ?thesis
    unfolding p sample_weeks_sorted by (simp add: sample_weeks_flat)
qed

section \<open>The REST fallback\<close>

lemmas date_eval = setHours0_def addDate_def align_def getDay_def LocalTime_def UTC_def Day_def
  TimeWithinDay_def TimeClip_def toISOString_def toISODate_def js_rem_def msPerDay_def maxTime_def

text \<open>
  C6. The claim asks that a \<open>daysToShow\<close> of 0 or below never inverts the window and is
  taken as 167. The proxy call does so for 0 only: with \<open>daysToShow = -5\<close> on
  2024-01-10 the window runs from 2024-01-14 back to 2024-01-10. The fallback reads the
  option as it is: with \<open>daysToShow = 0\<close> on Saturday 2024-01-13 its start date is
  2024-01-14, after today, and the day list is empty.
\<close>

theorem negative_daysToShow_inverts_window:
  "widget_window (fixed_zone 0) 1704880800000 (default_options\<lparr> daysToShow := - 5 \<rparr>) =
     Inr \<lparr> from_date = 1705190400000, to_date = 1704844800000 \<rparr>
   \<and> (1704844800000 :: int) < 1705190400000
   \<and> widget_window (fixed_zone 0) 1704880800000 (default_options\<lparr> daysToShow := 0 \<rparr>) =
     widget_window (fixed_zone 0) 1704880800000 (default_options\<lparr> daysToShow := 167 \<rparr>)
   \<and> setHours0 (fixed_zone 0) (Instant 1705140000000) = Instant 1705104000000
   \<and> startDate (fixed_zone 0) 1705140000000 (default_options\<lparr> daysToShow := 0 \<rparr>) =
     Instant 1705190400000
   \<and> fallback_days (fixed_zone 0) 1705140000000 (default_options\<lparr> daysToShow := 0 \<rparr>) [] =
     Some (Inr [])"
proof -
  have t: "setHours0 (fixed_zone 0) (Instant 1704880800000) = Instant 1704844800000"
    by (simp add: date_eval fixed_zone_def)
  have b: "setHours0 (fixed_zone 0) (addDate (fixed_zone 0) (Instant 1704844800000) 6) =
      Instant 1705363200000"
    by (simp add: date_eval fixed_zone_def)
  have a: "align (fixed_zone 0) (Instant 1705363200000) 0 = Instant 1705190400000"
    by (simp add: date_eval fixed_zone_def)
  have 1: "widget_window (fixed_zone 0) 1704880800000 (default_options\<lparr> daysToShow := - 5 \<rparr>) =
     Inr \<lparr> from_date = 1705190400000, to_date = 1704844800000 \<rparr>"
    unfolding widget_window_def Let_def t
    by (simp add: default_options_def or_default_def b a toISOString_def)
  have 2: "widget_window (fixed_zone 0) 1704880800000 (default_options\<lparr> daysToShow := 0 \<rparr>) =
     widget_window (fixed_zone 0) 1704880800000 (default_options\<lparr> daysToShow := 167 \<rparr>)"
    unfolding widget_window_def Let_def t
    by (simp add: default_options_def or_default_def toISOString_def)
  have t2: "setHours0 (fixed_zone 0) (Instant 1705140000000) = Instant 1705104000000"
    by (simp add: date_eval fixed_zone_def)
  have b2: "addDate (fixed_zone 0) (Instant 1705104000000) 1 = Instant 1705190400000"
    by (simp add: date_eval fixed_zone_def)
  have a2: "align (fixed_zone 0) (Instant 1705190400000) 0 = Instant 1705190400000"
    by (simp add: date_eval fixed_zone_def)
  have s2: "startDate (fixed_zone 0) 1705140000000 (default_options\<lparr> daysToShow := 0 \<rparr>) =
      Instant 1705190400000"
    unfolding startDate_def Let_def t2 by (simp add: default_options_def b2 a2)
  have 3: "fallback_days (fixed_zone 0) 1705140000000 (default_options\<lparr> daysToShow := 0 \<rparr>) [] =
      Some (Inr [])"
    by (simp add: fallback_days_def t2 s2 fill_days.simps)
  show ?thesis using 1 2 t2 s2 3 by simp
qed

text \<open>
  C5. The claim asks for one entry for each calendar date from the week-aligned start
  date to today, without gaps or duplicates. The loop steps through local midnights but
  prints each with \<^verbatim>\<open>toISOString\<close>, that is as a UTC date, and the events are counted
  by UTC date. One hour east of Greenwich, at 10:00 on Wednesday 2024-01-10 with
  \<open>daysToShow = 3\<close>, the aligned start is Sunday 2024-01-07, but the list runs from
  2024-01-06 to 2024-01-09: it has no entry for today, and today's event is counted
  nowhere (with \<open>daysToShow = 10\<close> the aligned start is Sunday 2023-12-31). In London on 2024-04-02, over the change to summer time, 2024-03-31 is
  listed twice.
\<close>

theorem fallback_prints_utc_dates:
  "fallback_days (fixed_zone 3600000) 1704877200000 (default_options\<lparr> daysToShow := 3 \<rparr>)
     sample_events =
     Some (Inr [\<lparr>date = 19728, count = 0\<rparr>, \<lparr>date = 19729, count = 0\<rparr>,
                \<lparr>date = 19730, count = 1\<rparr>, \<lparr>date = 19731, count = 0\<rparr>])
   \<and> local_day (fixed_zone 3600000) 1704877200000 = 19732
   \<and> startDate (fixed_zone 3600000) 1704877200000 (default_options\<lparr> daysToShow := 3 \<rparr>) =
     Instant 1704582000000
   \<and> local_day (fixed_zone 3600000) 1704582000000 = 19729
   \<and> weekday_of 19729 = 0
   \<and> events_on 19732 sample_events = 1
   \<and> startDate (fixed_zone 3600000) 1704877200000 (default_options\<lparr> daysToShow := 10 \<rparr>) =
     Instant 1703977200000
   \<and> local_day (fixed_zone 3600000) 1703977200000 = 19722
   \<and> fallback_days london 1712052000000 (default_options\<lparr> daysToShow := 3 \<rparr>) [] =
     Some (Inr [\<lparr>date = 19813, count = 0\<rparr>, \<lparr>date = 19813, count = 0\<rparr>,
                \<lparr>date = 19814, count = 0\<rparr>])
   \<and> local_day london 1712052000000 = 19815"
proof -
  let ?z = "fixed_zone 3600000"
  let ?opts = "default_options\<lparr> daysToShow := 3 \<rparr>"
  have t: "setHours0 ?z (Instant 1704877200000) = Instant 1704841200000"
    by (simp add: date_eval fixed_zone_def)
  have b: "addDate ?z (Instant 1704841200000) (- 2) = Instant 1704668400000"
    by (simp add: date_eval fixed_zone_def)
  have a: "align ?z (Instant 1704668400000) 0 = Instant 1704582000000"
    by (simp add: date_eval fixed_zone_def)
  have s: "startDate ?z 1704877200000 ?opts = Instant 1704582000000"
    unfolding startDate_def Let_def t by (simp add: default_options_def b a)
  have c: "count_events sample_events Map.empty = Inr [19732 \<mapsto> 1, 19730 \<mapsto> 1]"
    by (simp add: sample_events_def toISODate_def msPerDay_def get_or_0_def or_default_def Let_def)
  have d: "addDate ?z (Instant 1704582000000) 1 = Instant 1704668400000"
    "addDate ?z (Instant 1704668400000) 1 = Instant 1704754800000"
    "addDate ?z (Instant 1704754800000) 1 = Instant 1704841200000"
    "addDate ?z (Instant 1704841200000) 1 = Instant 1704927600000"
    by (simp_all add: date_eval fixed_zone_def)
  have f: "fill_days ?z [19732 \<mapsto> 1, 19730 \<mapsto> 1] (Instant 1704841200000) (Instant 1704582000000) [] =
      Some [\<lparr>date = 19728, count = 0\<rparr>, \<lparr>date = 19729, count = 0\<rparr>,
            \<lparr>date = 19730, count = 1\<rparr>, \<lparr>date = 19731, count = 0\<rparr>]"
    by (simp add: fill_days.simps d Let_def toISODate_def msPerDay_def get_or_0_def or_default_def)
  have 1: "fallback_days ?z 1704877200000 ?opts sample_events =
     Some (Inr [\<lparr>date = 19728, count = 0\<rparr>, \<lparr>date = 19729, count = 0\<rparr>,
                \<lparr>date = 19730, count = 1\<rparr>, \<lparr>date = 19731, count = 0\<rparr>])"
    by (simp add: fallback_days_def c t s f)
  have 2: "local_day ?z 1704877200000 = 19732" "local_day ?z 1704582000000 = 19729"
    "weekday_of 19729 = 0"
    by (simp_all add: local_day_def fixed_zone_def weekday_of_def)
  have 3: "events_on 19732 sample_events = 1"
    by (simp add: events_on_def sample_events_def toISODate_def msPerDay_def)
  have b10: "addDate ?z (Instant 1704841200000) (- 9) = Instant 1704063600000"
    by (simp add: date_eval fixed_zone_def)
  have a10: "align ?z (Instant 1704063600000) 0 = Instant 1703977200000"
    by (simp add: date_eval fixed_zone_def)
  have s10: "startDate ?z 1704877200000 (default_options\<lparr> daysToShow := 10 \<rparr>) =
     Instant 1703977200000"
    unfolding startDate_def Let_def t by (simp add: default_options_def b10 a10)
  have d10: "local_day ?z 1703977200000 = 19722"
    by (simp add: local_day_def fixed_zone_def)
  have lt: "setHours0 london (Instant 1712052000000) = Instant 1712012400000"
    by (simp add: date_eval london_def changing_zone_def)
  have lb: "addDate london (Instant 1712012400000) (- 2) = Instant 1711843200000"
    by (simp add: date_eval london_def changing_zone_def)
  have la: "align london (Instant 1711843200000) 0 = Instant 1711843200000"
    by (simp add: date_eval london_def changing_zone_def)
  have ls: "startDate london 1712052000000 ?opts = Instant 1711843200000"
    unfolding startDate_def Let_def lt by (simp add: default_options_def lb la)
  have ld: "addDate london (Instant 1711843200000) 1 = Instant 1711926000000"
    "addDate london (Instant 1711926000000) 1 = Instant 1712012400000"
    "addDate london (Instant 1712012400000) 1 = Instant 1712098800000"
    by (simp_all add: date_eval london_def changing_zone_def)
  have lf: "fill_days london Map.empty (Instant 1712012400000) (Instant 1711843200000) [] =
      Some [\<lparr>date = 19813, count = 0\<rparr>, \<lparr>date = 19813, count = 0\<rparr>, \<lparr>date = 19814, count = 0\<rparr>]"
    by (simp add: fill_days.simps ld Let_def toISODate_def msPerDay_def get_or_0_def)
  have 4: "fallback_days london 1712052000000 ?opts [] =
     Some (Inr [\<lparr>date = 19813, count = 0\<rparr>, \<lparr>date = 19813, count = 0\<rparr>,
                \<lparr>date = 19814, count = 0\<rparr>])"
    by (simp add: fallback_days_def lt ls lf)
  have 5: "local_day london 1712052000000 = 19815"
    by (simp add: local_day_def london_def changing_zone_def)
  show ?thesis by (intro conjI 1 2 s 3 s10 d10 4 5)
qed

section \<open>Pagination of the public events\<close>

lemma fetch_pages_rate_limited:
  assumes "page \<le> mp" and "net page = Response res" and "remaining res = Some (Num 0)"
  shows "fetch_pages net pp mp page acc req = (Inl (RateLimitReached (resetDate res)), req @ [page])"
  using assms by (subst fetch_pages.simps) simp

lemma fetch_pages_step:
  assumes "page \<le> mp"
  shows "(\<exists>r. fetch_pages net pp mp page acc req = (r, req @ [page]))
    \<or> (\<exists>res' evs. net page = Response res' \<and> \<not> remaining res' = Some (Num 0)
          \<and> \<not> status res' = 404 \<and> \<not> status res' = 403 \<and> \<not> \<not> ok (status res')
          \<and> json_body res' = Events evs \<and> \<not> evs = [] \<and> \<not> int (length evs) < pp
          \<and> fetch_pages net pp mp page acc req =
               fetch_pages net pp mp (page + 1) (acc @ evs) (req @ [page]))"
  unfolding fetch_pages.simps[of net pp mp page acc req]
  using assms by (auto split: rest_fetch.splits rest_body.splits)

lemma fetch_pages_requests:
  "net N = Response res \<Longrightarrow> remaining res = Some (Num 0) \<Longrightarrow> page \<le> N \<Longrightarrow>
     \<exists>k. snd (fetch_pages net pp mp page acc req) = req @ [page..k] \<and> k \<le> N
       \<and> (k = N \<longrightarrow> fst (fetch_pages net pp mp page acc req) = Inl (RateLimitReached (resetDate res)))"
proof (induction net pp mp page acc req rule: fetch_pages.induct)
  case (1 net pp mp page acc req)
  show ?case
  proof (cases "page \<le> mp")
    case False
    then have "fetch_pages net pp mp page acc req = (Inr acc, req)"
      by (subst fetch_pages.simps) simp
    then show ?thesis using "1.prems" by (intro exI[of _ "page - 1"]) simp
  next
    case True
    show ?thesis
    proof (cases "page = N")
      case PN: True
      have "fetch_pages net pp mp page acc req = (Inl (RateLimitReached (resetDate res)), req @ [page])"
        using True "1.prems" PN by (intro fetch_pages_rate_limited) auto
      then show ?thesis using PN by (intro exI[of _ page]) simp
    next
      case PN: False
      then have lt: "page + 1 \<le> N" using "1.prems" by simp
      consider (stop) r where "fetch_pages net pp mp page acc req = (r, req @ [page])"
        | (more) res' evs where "net page = Response res'" "\<not> remaining res' = Some (Num 0)"
            "\<not> status res' = 404" "\<not> status res' = 403" "\<not> \<not> ok (status res')"
            "json_body res' = Events evs" "\<not> evs = []" "\<not> int (length evs) < pp"
            "fetch_pages net pp mp page acc req =
               fetch_pages net pp mp (page + 1) (acc @ evs) (req @ [page])"
        using fetch_pages_step[OF True, of net pp acc req] by blast
      then show ?thesis
      proof cases
        case stop
        then show ?thesis using PN "1.prems" by (intro exI[of _ page]) simp
      next
        case more
        obtain k where k: "snd (fetch_pages net pp mp (page + 1) (acc @ evs) (req @ [page])) =
              (req @ [page]) @ [page + 1..k]" "k \<le> N"
            "k = N \<longrightarrow> fst (fetch_pages net pp mp (page + 1) (acc @ evs) (req @ [page])) =
               Inl (RateLimitReached (resetDate res))"
          using "1.IH"[OF True more(1-8) "1.prems"(1,2) lt] by blast
        show ?thesis
        proof (cases "page \<le> k")
          case pk: True
          then have "[page] @ [page + 1..k] = [page..k]" by (simp add: upto_rec1)
          then show ?thesis using k unfolding more(9) by (intro exI[of _ k]) simp
        next
          case pk: False
          then have "[page + 1..k] = []" by simp
          then show ?thesis using k PN "1.prems" unfolding more(9) by (intro exI[of _ page]) simp
        qed
      qed
    qed
  qed
qed


text \<open>
  C7. When the response for page \<open>N\<close> carries a remaining-quota header that reads 0,
  the loop raises the rate-limit error on that response, with the reset date when the
  reset header is there (an invalid date when the header is not a number or lies
  outside the range of dates), whatever the status and the body of the response; the
  pages requested are \<open>1..k\<close> for some \<open>k \<le> N\<close>, so page \<open>N + 1\<close> is never requested.
\<close>

theorem rate_limit_abort:
  assumes "net N = Response res" and "remaining res = Some (Num 0)" and "1 \<le> N"
  shows "(case fetchEventsAllPages net opts of
            (result, requested) \<Rightarrow>
              (\<exists>k \<le> N. requested = [1..k])
              \<and> (\<forall>p \<in> set requested. p \<le> N)
              \<and> N + 1 \<notin> set requested
              \<and> (N \<in> set requested \<longrightarrow> result = Inl (RateLimitReached (resetDate res))))
       \<and> (\<forall>allEvents requested. N \<le> maxPages opts \<longrightarrow>
            fetch_pages net (perPage opts) (maxPages opts) N allEvents requested =
              (Inl (RateLimitReached (resetDate res)), requested @ [N]))
       \<and> (\<forall>s. reset res = Some (Num s) \<longrightarrow>
            resetDate res =
              Some (if \<bar>s * 1000\<bar> \<le> 8640000000000000 then Instant (s * 1000) else InvalidDate))
       \<and> (reset res = Some NaN \<longrightarrow> resetDate res = Some InvalidDate)
       \<and> (reset res = None \<longrightarrow> resetDate res = None)"
proof -
  obtain k where k: "snd (fetchEventsAllPages net opts) = [1..k]" "k \<le> N"
      "k = N \<longrightarrow> fst (fetchEventsAllPages net opts) = Inl (RateLimitReached (resetDate res))"
    using fetch_pages_requests[where net = net and N = N and res = res and page = 1
        and pp = "perPage opts" and mp = "maxPages opts" and acc = "[]" and req = "[]", OF assms]
    by (auto simp: fetchEventsAllPages_def)
  obtain result requested where rr: "fetchEventsAllPages net opts = (result, requested)"
    by (cases "fetchEventsAllPages net opts")
  have req: "requested = [1..k]" using k(1) rr by simp
  have 1: "\<exists>k \<le> N. requested = [1..k]" using req k(2) by blast
  have 2: "\<forall>p \<in> set requested. p \<le> N" using req k(2) by auto
  have 3: "N + 1 \<notin> set requested" using req k(2) by auto
  have 4: "N \<in> set requested \<longrightarrow> result = Inl (RateLimitReached (resetDate res))"
    using req k(2,3) rr by auto
  have 5: "\<forall>allEvents requested. N \<le> maxPages opts \<longrightarrow>
            fetch_pages net (perPage opts) (maxPages opts) N allEvents requested =
              (Inl (RateLimitReached (resetDate res)), requested @ [N])"
    using assms(1,2) by (simp add: fetch_pages_rate_limited)
  have 6: "\<forall>s. reset res = Some (Num s) \<longrightarrow>
            resetDate res =
              Some (if \<bar>s * 1000\<bar> \<le> 8640000000000000 then Instant (s * 1000) else InvalidDate)"
    by (simp add: resetDate_def TimeClip_def maxTime_def)
  have 7: "reset res = Some NaN \<longrightarrow> resetDate res = Some InvalidDate"
    by (simp add: resetDate_def)
  have 8: "reset res = None \<longrightarrow> resetDate res = None"
    by (simp add: resetDate_def)
  show ?thesis unfolding rr prod.case by (intro conjI 1 2 3 4 5 6 7 8)
qed

theorem rate_limit_abort_witness:
  "fetchEventsAllPages sample_net (default_options\<lparr> perPage := 2 \<rparr>) =
     (Inl (RateLimitReached (Some (Instant 1704884400000))), [1, 2])"
proof -
  have n: "sample_net 2 = Response \<lparr> remaining = Some (Num 0), reset = Some (Num 1704884400), status = 403,
                   text_body = ''API rate limit exceeded'', json_body = NotJson \<rparr>"
    by (simp add: sample_net_def)
  have a: "remaining \<lparr> remaining = Some (Num 0), reset = Some (Num 1704884400), status = 403,
                   text_body = ''API rate limit exceeded'', json_body = NotJson \<rparr> = Some (Num 0)"
    by simp
  have h: "(1::int) \<le> 2" by simp
  have p1: "fetchEventsAllPages sample_net (default_options\<lparr> perPage := 2 \<rparr>) =
      fetch_pages sample_net 2 10 2 [\<lparr> created_at = None \<rparr>, \<lparr> created_at = None \<rparr>] [1]"
    unfolding fetchEventsAllPages_def
    by (subst fetch_pages.simps) (simp add: sample_net_def default_options_def ok_def)
  show ?thesis
    using rate_limit_abort[where net = sample_net and N = 2
        and opts = "default_options\<lparr> perPage := 2 \<rparr>", OF n a h]
    unfolding p1 by (simp add: default_options_def resetDate_def)
qed

text \<open>A reset time beyond the range of dates prints as an invalid date.\<close>

lemma resetDate_out_of_range:
  "resetDate \<lparr> remaining = Some (Num 0), reset = Some (Num 8640000000001), status = 403,
     text_body = [], json_body = NotJson \<rparr> = Some InvalidDate"
  by (simp add: resetDate_def TimeClip_def maxTime_def)

section \<open>The handler\<close>

lemma split_pop_trailing:
  assumes "trailing_segment p seg"
  shows "split_pop p = seg"
proof -
  obtain pre where p: "p = pre @ seg" and pre: "pre = [] \<or> last pre = CHR ''/''"
    and seg: "CHR ''/'' \<notin> set seg"
    using assms by (auto simp: trailing_segment_def)
  have a: "takeWhile (\<lambda>c. c \<noteq> CHR ''/'') (rev pre) = []"
    using pre by (cases "rev pre") (auto simp: last_rev[symmetric] simp del: last_rev)
  have "takeWhile (\<lambda>c. c \<noteq> CHR ''/'') (rev seg @ rev pre) =
      rev seg @ takeWhile (\<lambda>c. c \<noteq> CHR ''/'') (rev pre)"
    using seg by (intro takeWhile_append2) auto
  then show ?thesis by (simp add: split_pop_def p a)
qed

lemma split_pop_nonempty:
  assumes "p \<noteq> []" and "last p \<noteq> CHR ''/''"
  shows "split_pop p \<noteq> []"
proof -
  have "rev (butlast p @ [last p]) = last p # rev (butlast p)" by simp
  then have r: "rev p = last p # rev (butlast p)"
    unfolding append_butlast_last_id[OF assms(1)] .
  show ?thesis unfolding split_pop_def r using assms(2) by simp
qed

lemma truthy_blank: "truthy v \<longleftrightarrow> \<not> blank v"
  by (cases v) (auto simp: truthy_def blank_def)

lemma truthy_from_pathParameters: "truthy (from_pathParameters ev) \<longleftrightarrow> \<not> no_path_parameter ev"
  by (auto simp: from_pathParameters_def no_path_parameter_def truthy_blank blank_def
      split: option.splits)

lemma truthy_from_query_username:
  "truthy (from_query_username ev) \<longleftrightarrow> \<not> no_query_parameter q_username ev"
  by (auto simp: from_query_username_def no_query_parameter_def truthy_blank blank_def
      split: option.splits)

lemma truthy_from_query_user:
  "truthy (from_query_user ev) \<longleftrightarrow> \<not> no_query_parameter q_user ev"
  by (auto simp: from_query_user_def no_query_parameter_def truthy_blank blank_def
      split: option.splits)

lemma trailing_segment_Nil: "trailing_segment p [] \<longleftrightarrow> p = [] \<or> last p = CHR ''/''"
  by (auto simp: trailing_segment_def)

lemma truthy_from_path: "truthy (from_path ev) \<longleftrightarrow> \<not> no_trailing_segment ev"
proof (cases "path ev")
  case None
  then show ?thesis by (simp add: from_path_def no_trailing_segment_def truthy_def)
next
  case (Some p)
  show ?thesis
  proof (cases "p = [] \<or> last p = CHR ''/''")
    case True
    then have "split_pop p = []"
      by (intro split_pop_trailing) (simp add: trailing_segment_Nil)
    then show ?thesis
      using Some True by (auto simp: from_path_def no_trailing_segment_def truthy_def trailing_segment_Nil)
  next
    case False
    then have "split_pop p \<noteq> []" by (intro split_pop_nonempty) auto
    then show ?thesis
      using Some False by (auto simp: from_path_def no_trailing_segment_def truthy_def trailing_segment_Nil)
  qed
qed

lemma truthy_resolve_username:
  "truthy (resolve_username ev) \<longleftrightarrow>
     \<not> (no_path_parameter ev \<and> no_query_parameter q_username ev
        \<and> no_query_parameter q_user ev \<and> no_trailing_segment ev)"
  by (simp add: resolve_username_def truthy_from_pathParameters[symmetric]
      truthy_from_query_username[symmetric] truthy_from_query_user[symmetric]
      truthy_from_path[symmetric])

lemma handler_bad_request:
  "\<not> truthy (resolve_username ev) \<Longrightarrow> handler e ev = Inr bad_request"
  by (simp add: handler_def handler_try_def bad_request_def json_response_def)

lemma handler_try_resolved:
  assumes "truthy (resolve_username ev)" and "handler_try e ev = Inr r"
  shows "body r \<noteq> ErrorOnly UsernameRequired"
  using assms
  by (auto simp: handler_try_def Let_def json_response_def
      split: sum.splits prod.splits if_splits option.splits gh_fetch.splits gh_json.splits calendar.splits)

lemma handler_resolved:
  assumes "truthy (resolve_username ev)" and "handler e ev = Inr r"
  shows "body r \<noteq> ErrorOnly UsernameRequired"
proof (cases "handler_try e ev")
  case (Inl err)
  then show ?thesis using assms(2)
    by (auto simp: handler_def catch_block_def json_response_def split: sum.splits)
next
  case (Inr r')
  then show ?thesis using handler_try_resolved[OF assms(1) Inr] assms(2) by (simp add: handler_def)
qed

text \<open>
  C9. The username is the first non-empty value among the path parameter \<open>username\<close>,
  the query parameter \<open>username\<close>, the query parameter \<open>user\<close> and the trailing segment
  of the path, in this order. The handler answers with status 400 and the bad-request
  body if and only if none of the four is non-empty.
\<close>

theorem username_resolution:
  "(\<forall>u. pathParameters ev = Some (Some u) \<and> u \<noteq> [] \<longrightarrow> resolve_username ev = Some u)
   \<and> (\<forall>q u. no_path_parameter ev \<and> queryStringParameters ev = Some q
          \<and> q_username q = Some u \<and> u \<noteq> [] \<longrightarrow> resolve_username ev = Some u)
   \<and> (\<forall>q u. no_path_parameter ev \<and> queryStringParameters ev = Some q
          \<and> blank (q_username q) \<and> q_user q = Some u \<and> u \<noteq> [] \<longrightarrow>
          resolve_username ev = Some u)
   \<and> (\<forall>p seg. no_path_parameter ev \<and> no_query_parameter q_username ev
          \<and> no_query_parameter q_user ev \<and> path ev = Some p
          \<and> trailing_segment p seg \<and> seg \<noteq> [] \<longrightarrow> resolve_username ev = Some seg)
   \<and> (handler e ev =
         Inr \<lparr> statusCode = 400, contentType = ''application/json'', allowOrigin = ''*'',
               cacheControl = None, body = ErrorOnly UsernameRequired \<rparr>
        \<longleftrightarrow> no_path_parameter ev \<and> no_query_parameter q_username ev
            \<and> no_query_parameter q_user ev \<and> no_trailing_segment ev)
   \<and> ((\<exists>r. handler e ev = Inr r \<and> statusCode r = 400 \<and> body r = ErrorOnly UsernameRequired)
        \<longleftrightarrow> no_path_parameter ev \<and> no_query_parameter q_username ev
            \<and> no_query_parameter q_user ev \<and> no_trailing_segment ev)"
proof -
  have 1: "\<forall>u. pathParameters ev = Some (Some u) \<and> u \<noteq> [] \<longrightarrow> resolve_username ev = Some u"
    by (simp add: resolve_username_def from_pathParameters_def truthy_def)
  have 2: "\<forall>q u. no_path_parameter ev \<and> queryStringParameters ev = Some q
          \<and> q_username q = Some u \<and> u \<noteq> [] \<longrightarrow> resolve_username ev = Some u"
  proof (intro allI impI)
    fix q u
    assume a: "no_path_parameter ev \<and> queryStringParameters ev = Some q
          \<and> q_username q = Some u \<and> u \<noteq> []"
    then have "from_query_username ev = Some u" by (simp add: from_query_username_def)
    then show "resolve_username ev = Some u"
      using a by (simp add: resolve_username_def truthy_from_pathParameters) (simp add: truthy_def)
  qed
  have 3: "\<forall>q u. no_path_parameter ev \<and> queryStringParameters ev = Some q
          \<and> blank (q_username q) \<and> q_user q = Some u \<and> u \<noteq> [] \<longrightarrow>
          resolve_username ev = Some u"
  proof (intro allI impI)
    fix q u
    assume a: "no_path_parameter ev \<and> queryStringParameters ev = Some q
          \<and> blank (q_username q) \<and> q_user q = Some u \<and> u \<noteq> []"
    then have n: "no_query_parameter q_username ev" by (simp add: no_query_parameter_def)
    have "from_query_user ev = Some u" using a by (simp add: from_query_user_def)
    then show "resolve_username ev = Some u"
      using a n
      by (simp add: resolve_username_def truthy_from_pathParameters truthy_from_query_username)
         (simp add: truthy_def)
  qed
  have 4: "\<forall>p seg. no_path_parameter ev \<and> no_query_parameter q_username ev
          \<and> no_query_parameter q_user ev \<and> path ev = Some p
          \<and> trailing_segment p seg \<and> seg \<noteq> [] \<longrightarrow> resolve_username ev = Some seg"
  proof (intro allI impI)
    fix p seg
    assume a: "no_path_parameter ev \<and> no_query_parameter q_username ev
          \<and> no_query_parameter q_user ev \<and> path ev = Some p
          \<and> trailing_segment p seg \<and> seg \<noteq> []"
    then have s: "split_pop p = seg" by (intro split_pop_trailing) simp
    have "p \<noteq> []" using a by (auto simp: trailing_segment_def)
    then show "resolve_username ev = Some seg"
      using a s
      by (simp add: resolve_username_def truthy_from_pathParameters truthy_from_query_username
          truthy_from_query_user from_path_def)
  qed
  let ?none = "no_path_parameter ev \<and> no_query_parameter q_username ev
            \<and> no_query_parameter q_user ev \<and> no_trailing_segment ev"
  have n: "?none \<longleftrightarrow> \<not> truthy (resolve_username ev)"
    unfolding truthy_resolve_username by blast
  have 5: "handler e ev =
         Inr \<lparr> statusCode = 400, contentType = ''application/json'', allowOrigin = ''*'',
               cacheControl = None, body = ErrorOnly UsernameRequired \<rparr>
        \<longleftrightarrow> ?none"
    unfolding n using handler_bad_request[of ev e] handler_resolved[of ev e]
    by (auto simp: bad_request_def)
  have 6: "(\<exists>r. handler e ev = Inr r \<and> statusCode r = 400 \<and> body r = ErrorOnly UsernameRequired)
        \<longleftrightarrow> ?none"
    unfolding n using handler_bad_request[of ev e] handler_resolved[of ev e]
    by (auto simp: bad_request_def)
  show ?thesis by (intro conjI 1 2 3 4 5 6)
qed


theorem username_resolution_witness:
  "resolve_username request_all = Some ''alice''
   \<and> resolve_username request_query = Some ''bob''
   \<and> resolve_username request_by_user = Some ''octocat''
   \<and> resolve_username request_by_path = Some ''dave''
   \<and> handler sample_env request_without_user =
       Inr \<lparr> statusCode = 400, contentType = ''application/json'', allowOrigin = ''*'',
             cacheControl = None, body = ErrorOnly UsernameRequired \<rparr>
   \<and> \<not> (\<exists>r. handler sample_env request_by_user = Inr r \<and> statusCode r = 400
            \<and> body r = ErrorOnly UsernameRequired)"
proof -
  have a: "pathParameters request_all = Some (Some ''alice'')"
    by (simp add: request_all_def)
  have b: "no_path_parameter request_query"
    "queryStringParameters request_query =
       Some (no_query\<lparr> q_username := Some ''bob'', q_user := Some ''carol'' \<rparr>)"
    by (simp_all add: request_query_def no_path_parameter_def blank_def)
  have c: "no_path_parameter request_by_user"
    "queryStringParameters request_by_user =
       Some (no_query\<lparr> q_user := Some ''octocat'', q_days := Some (Num 3) \<rparr>)"
    "\<not> no_query_parameter q_user request_by_user"
    by (simp_all add: request_by_user_def no_path_parameter_def no_query_parameter_def blank_def)
  have d: "no_path_parameter request_by_path" "no_query_parameter q_username request_by_path"
    "no_query_parameter q_user request_by_path"
    "path request_by_path = Some ''/.netlify/functions/github-contributions/dave''"
    by (simp_all add: request_by_path_def no_path_parameter_def no_query_parameter_def blank_def
        no_query_def)
  have t: "trailing_segment ''/.netlify/functions/github-contributions/dave'' ''dave''"
    unfolding trailing_segment_def
    by (intro conjI exI[of _ "''/.netlify/functions/github-contributions/''"]) simp_all
  have n: "no_path_parameter request_without_user"
    "no_query_parameter q_username request_without_user"
    "no_query_parameter q_user request_without_user"
    "no_trailing_segment request_without_user"
    by (simp_all add: request_without_user_def no_path_parameter_def no_query_parameter_def
        no_trailing_segment_def trailing_segment_Nil blank_def)
  show ?thesis
    using username_resolution[of request_all sample_env] a
      username_resolution[of request_query sample_env] b
      username_resolution[of request_by_user sample_env] c
      username_resolution[of request_by_path sample_env] d t
      username_resolution[of request_without_user sample_env] n
    by (simp add: no_query_def blank_def)
qed

lemma resolve_window_raises:
  "resolve_window z now yb q = Inl err \<Longrightarrow> err = RangeError"
  by (auto simp: resolve_window_def from_of_days_def toISOString_def Let_def
      split: option.splits sum.splits jsdate.splits jsnum.splits if_splits)

lemma proxy_days_raises:
  "proxy_days ws qd = Inl err \<longleftrightarrow> err = TypeError \<and> (\<exists>w \<in> set ws. contributionDays w = None)"
proof (cases "\<exists>w \<in> set ws. contributionDays w = None")
  case True
  then show ?thesis using flatten_weeks_raises[of ws "[]"] by (auto simp: proxy_days_def)
next
  case False
  then have "flatten_weeks ws [] = Inr ([] @ flat_days ws)"
    by (intro flatten_weeks_flat) auto
  then show ?thesis using False by (auto simp: proxy_days_def)
qed

lemma truthy_Some: "truthy v \<longleftrightarrow> (\<exists>u. v = Some u \<and> u \<noteq> [])"
  by (cases v) (auto simp: truthy_def)

lemma ok_iff: "ok st \<longleftrightarrow> \<not> (st < 200 \<or> 299 < st)"
  by (auto simp: ok_def)

lemma proxy_days_returns:
  "proxy_days ws qd = Inr x \<Longrightarrow> \<not> (\<exists>w \<in> set ws. contributionDays w = None)"
  using proxy_days_raises[of ws qd TypeError] by auto

text \<open>What the try block does with the answer of GitHub, and when that raises.\<close>

lemma handler_try_upstream:
  assumes "resolve_username ev = Some u" and "u \<noteq> []"
    and "resolve_window (env_zone e) (env_now e) (year_before e) (query_of ev) = Inr (fromISO, toISO)"
    and "GITHUB_TOKEN e = Some tok" and "tok \<noteq> []"
    and "graphql e u fromISO toISO = FetchResponse ghRes"
    and "\<not> (gh_status ghRes < 200 \<or> 299 < gh_status ghRes)"
  shows "handler_try e ev =
     (case gh_json ghRes of
        None \<Rightarrow> Inl SyntaxError
      | Some JsonNull \<Rightarrow> Inl TypeError
      | Some (JsonObject errors cal) \<Rightarrow>
          if errors \<noteq> None \<and> errors \<noteq> Some [] then
            Inr (json_response 500 (ErrorList GraphQLError (the errors)))
          else
            (case cal of
               MissingPath \<Rightarrow> Inl TypeError
             | Weeks ws \<Rightarrow>
                 (case proxy_days (case ws of None \<Rightarrow> [] | Some l \<Rightarrow> l) (q_days (query_of ev)) of
                    Inl err \<Rightarrow> Inl err
                  | Inr days \<Rightarrow>
                      Inr \<lparr> statusCode = 200, contentType = ''application/json'',
                            allowOrigin = ''*'',
                            cacheControl =
                              Some (case CACHE_TTL_SECONDS e of None \<Rightarrow> Num 600 | Some n \<Rightarrow> n),
                            body = DaysJson days \<rparr>)))"
  using assms unfolding handler_try_def Let_def query_of_def[symmetric]
  by (simp add: truthy_def ok_iff)

lemma try_raises_upstream:
  assumes "resolve_username ev = Some u" and "u \<noteq> []"
    and "resolve_window (env_zone e) (env_now e) (year_before e) (query_of ev) = Inr (fromISO, toISO)"
    and "GITHUB_TOKEN e = Some tok" and "tok \<noteq> []"
    and "graphql e u fromISO toISO = FetchResponse ghRes"
    and "\<not> (gh_status ghRes < 200 \<or> 299 < gh_status ghRes)"
  shows "try_raises e ev err \<longleftrightarrow>
     (case gh_json ghRes of
        None \<Rightarrow> err = SyntaxError
      | Some JsonNull \<Rightarrow> err = TypeError
      | Some (JsonObject errors cal) \<Rightarrow>
          (errors = None \<or> errors = Some []) \<and> err = TypeError
          \<and> (case cal of
                MissingPath \<Rightarrow> True
              | Weeks None \<Rightarrow> False
              | Weeks (Some ws) \<Rightarrow> (\<exists>w \<in> set ws. contributionDays w = None)))"
  using assms unfolding try_raises_def by simp

lemma handler_try_raises: "handler_try e ev = Inl err \<longleftrightarrow> try_raises e ev err"
proof (cases "truthy (resolve_username ev)")
  case False
  then show ?thesis by (auto simp: handler_try_def try_raises_def truthy_Some)
next
  case True
  then obtain u where u: "resolve_username ev = Some u" "u \<noteq> []" by (auto simp: truthy_Some)
  show ?thesis
  proof (cases "resolve_window (env_zone e) (env_now e) (year_before e) (query_of ev)")
    case (Inl x)
    then show ?thesis
      using True u unfolding handler_try_def Let_def query_of_def[symmetric] try_raises_def
      by auto
  next
    case (Inr w)
    obtain fromISO toISO where w: "w = (fromISO, toISO)" by (cases w)
    note win = Inr[unfolded w]
    show ?thesis
    proof (cases "truthy (GITHUB_TOKEN e)")
      case tok: False
      then show ?thesis
        using True u win unfolding handler_try_def Let_def query_of_def[symmetric] try_raises_def
        by (auto simp: truthy_Some)
    next
      case tok: True
      then obtain tk where tk: "GITHUB_TOKEN e = Some tk" "tk \<noteq> []" by (auto simp: truthy_Some)
      show ?thesis
      proof (cases "graphql e u fromISO toISO")
        case FetchRejected
        then show ?thesis
          using True u win tok tk
          unfolding handler_try_def Let_def query_of_def[symmetric] try_raises_def
          by auto
      next
        case (FetchResponse ghRes)
        show ?thesis
        proof (cases "gh_status ghRes < 200 \<or> 299 < gh_status ghRes")
          case bad: True
          then show ?thesis
            using True u win tok tk FetchResponse
            unfolding handler_try_def Let_def query_of_def[symmetric] try_raises_def
            by (auto simp: ok_iff split: option.splits)
        next
          case good: False
          note h = handler_try_upstream[OF u win tk FetchResponse good]
          note r = try_raises_upstream[OF u win tk FetchResponse good, of err]
          show ?thesis
          proof (cases "gh_json ghRes")
            case None
            then show ?thesis unfolding h r by auto
          next
            case (Some j)
            show ?thesis
            proof (cases j)
              case JsonNull
              then show ?thesis unfolding h r Some by auto
            next
              case (JsonObject errors cal)
              show ?thesis
              proof (cases "errors \<noteq> None \<and> errors \<noteq> Some []")
                case True
                then show ?thesis unfolding h r Some JsonObject by auto
              next
                case noerr: False
                show ?thesis
                proof (cases cal)
                  case MissingPath
                  then show ?thesis using noerr unfolding h r Some JsonObject by auto
                next
                  case (Weeks ws)
                  show ?thesis
                  proof (cases ws)
                    case None
                    have "proxy_days [] (q_days (query_of ev)) \<noteq> Inl err"
                      using proxy_days_raises[of "[]" "q_days (query_of ev)" err] by simp
                    then show ?thesis
                      using noerr unfolding h r Some JsonObject Weeks None
                      by (auto split: sum.splits)
                  next
                    case (Some l)
                    show ?thesis
                      using noerr proxy_days_raises[of l "q_days (query_of ev)" err]
                      unfolding h r \<open>gh_json ghRes = Some j\<close> JsonObject Weeks Some
                      by (auto split: sum.splits)
                  qed
                qed
              qed
            qed
          qed
        qed
      qed
    qed
  qed
qed

lemma try_raises_error:
  assumes "try_raises e ev err"
  shows "err \<noteq> NotAnObject"
proof -
  let ?upstream = "\<lambda>u fromISO toISO.
     (case graphql e u fromISO toISO of
        FetchRejected \<Rightarrow> err = FetchFailed
      | FetchResponse ghRes \<Rightarrow>
          if gh_status ghRes < 200 \<or> 299 < gh_status ghRes
          then gh_text ghRes = None \<and> err = TypeError
          else (case gh_json ghRes of
                  None \<Rightarrow> err = SyntaxError
                | Some JsonNull \<Rightarrow> err = TypeError
                | Some (JsonObject errors cal) \<Rightarrow>
                    (errors = None \<or> errors = Some []) \<and> err = TypeError
                    \<and> (case cal of
                          MissingPath \<Rightarrow> True
                        | Weeks None \<Rightarrow> False
                        | Weeks (Some ws) \<Rightarrow>
                            (\<exists>w \<in> set ws. contributionDays w = None))))"
  from assms obtain u where
    d: "resolve_window (env_zone e) (env_now e) (year_before e) (query_of ev) = Inl err
        \<or> (\<exists>fromISO toISO. ?upstream u fromISO toISO)"
    unfolding try_raises_def by blast
  from d show ?thesis
  proof
    assume "resolve_window (env_zone e) (env_now e) (year_before e) (query_of ev) = Inl err"
    then show ?thesis using resolve_window_raises by fastforce
  next
    assume "\<exists>fromISO toISO. ?upstream u fromISO toISO"
    then obtain fromISO toISO where c: "?upstream u fromISO toISO"
      by blast
    show ?thesis
    proof (cases "graphql e u fromISO toISO")
      case FetchRejected
      then show ?thesis using c by simp
    next
      case (FetchResponse ghRes)
      show ?thesis
      proof (cases "gh_status ghRes < 200 \<or> 299 < gh_status ghRes")
        case True
        then show ?thesis using c FetchResponse by auto
      next
        case False
        show ?thesis
        proof (cases "gh_json ghRes")
          case None
          then show ?thesis using c FetchResponse False by auto
        next
          case (Some j)
          then show ?thesis using c FetchResponse False by (cases j) auto
        qed
      qed
    qed
  qed
qed

text \<open>
  C10. The handler always returns a response and no exception leaves it: an exception
  raised in the try block is an Error object, and the catch block answers it with status
  500 and a body that holds the error message and the exception as details. The
  exceptions of the try block are those of \<open>try_raises\<close>; among them are a body that is
  not JSON, a JSON null, an object without \<open>data.user\<close> and a \<open>to\<close> that is not a date.
\<close>

theorem handler_total:
  "(\<exists>res. handler e ev = Inr res)
   \<and> (\<forall>err. handler_try e ev = Inl err \<longleftrightarrow> try_raises e ev err)
   \<and> (\<forall>err. try_raises e ev err \<longrightarrow>
         handler e ev =
           Inr \<lparr> statusCode = 500, contentType = ''application/json'', allowOrigin = ''*'',
                 cacheControl = None, body = ErrorDetails InternalError err \<rparr>)
   \<and> (\<forall>res. handler_try e ev = Inr res \<longrightarrow> handler e ev = Inr res)"
proof -
  have 2: "\<forall>err. handler_try e ev = Inl err \<longleftrightarrow> try_raises e ev err"
    by (simp add: handler_try_raises)
  have 3: "\<forall>err. try_raises e ev err \<longrightarrow>
         handler e ev =
           Inr \<lparr> statusCode = 500, contentType = ''application/json'', allowOrigin = ''*'',
                 cacheControl = None, body = ErrorDetails InternalError err \<rparr>"
  proof (intro allI impI)
    fix err assume r: "try_raises e ev err"
    then have "handler_try e ev = Inl err" by (simp add: handler_try_raises)
    then show "handler e ev =
           Inr \<lparr> statusCode = 500, contentType = ''application/json'', allowOrigin = ''*'',
                 cacheControl = None, body = ErrorDetails InternalError err \<rparr>"
      using try_raises_error[OF r]
      by (cases err) (simp_all add: handler_def catch_block_def read_message_def json_response_def)
  qed
  have 4: "\<forall>res. handler_try e ev = Inr res \<longrightarrow> handler e ev = Inr res"
    by (simp add: handler_def)
  have 1: "\<exists>res. handler e ev = Inr res"
  proof (cases "handler_try e ev")
    case (Inl err)
    then show ?thesis using 2 3 by blast
  next
    case (Inr res)
    then show ?thesis using 4 by blast
  qed
  show ?thesis by (intro conjI 1 2 3 4)
qed

theorem handler_total_witness:
  "try_raises sample_env request_by_user TypeError
   \<and> handler sample_env request_by_user =
       Inr \<lparr> statusCode = 500, contentType = ''application/json'', allowOrigin = ''*'',
             cacheControl = None, body = ErrorDetails InternalError TypeError \<rparr>
   \<and> try_raises sample_env request_bad_to RangeError
   \<and> handler sample_env request_bad_to =
       Inr \<lparr> statusCode = 500, contentType = ''application/json'', allowOrigin = ''*'',
             cacheControl = None, body = ErrorDetails InternalError RangeError \<rparr>
   \<and> handler_try sample_env request_without_user =
       Inr \<lparr> statusCode = 400, contentType = ''application/json'', allowOrigin = ''*'',
             cacheControl = None, body = ErrorOnly UsernameRequired \<rparr>
   \<and> handler sample_env request_without_user =
       Inr \<lparr> statusCode = 400, contentType = ''application/json'', allowOrigin = ''*'',
             cacheControl = None, body = ErrorOnly UsernameRequired \<rparr>"
proof -
  have u: "resolve_username request_by_user = Some ''octocat''"
    by (simp add: resolve_username_def request_by_user_def from_pathParameters_def
        from_query_username_def from_query_user_def no_query_def truthy_def)
  have q: "query_of request_by_user = no_query\<lparr> q_user := Some ''octocat'', q_days := Some (Num 3) \<rparr>"
    by (simp add: query_of_def request_by_user_def)
  have t: "setHours0 (fixed_zone 0) (Instant 1704880800000) = Instant 1704844800000"
    by (simp add: date_eval fixed_zone_def)
  have f: "setHours0 (fixed_zone 0) (addDate (fixed_zone 0) (setHours0 (fixed_zone 0) (Instant 1704844800000)) (- 2))
      = Instant 1704672000000"
    by (simp add: date_eval fixed_zone_def)
  have w: "resolve_window (env_zone sample_env) (env_now sample_env) (year_before sample_env)
      (query_of request_by_user) = Inr (Instant 1704672000000, Instant 1704844800000)"
    unfolding q
    by (simp add: sample_env_def resolve_window_def from_of_days_def no_query_def Let_def t f
        toISOString_def)
  have r1: "try_raises sample_env request_by_user TypeError"
    unfolding try_raises_def u w by (simp add: sample_env_def)
  have u2: "resolve_username request_bad_to = Some ''octocat''"
    by (simp add: resolve_username_def request_bad_to_def from_pathParameters_def truthy_def)
  have q2: "query_of request_bad_to = no_query\<lparr> q_to := Some InvalidDate, q_days := Some (Num 3) \<rparr>"
    by (simp add: query_of_def request_bad_to_def)
  have w2: "resolve_window (env_zone sample_env) (env_now sample_env) (year_before sample_env)
      (query_of request_bad_to) = Inl RangeError"
    unfolding q2
    by (simp add: sample_env_def resolve_window_def from_of_days_def no_query_def Let_def t
        setHours0_def addDate_def toISOString_def)
  have r2: "try_raises sample_env request_bad_to RangeError"
    unfolding try_raises_def u2 w2 by simp
  have u3: "resolve_username request_without_user = Some []"
    by (simp add: resolve_username_def request_without_user_def from_pathParameters_def
        from_query_username_def from_query_user_def from_path_def split_pop_def truthy_def)
  have r3: "handler_try sample_env request_without_user =
       Inr \<lparr> statusCode = 400, contentType = ''application/json'', allowOrigin = ''*'',
             cacheControl = None, body = ErrorOnly UsernameRequired \<rparr>"
    by (simp add: handler_try_def u3 truthy_def json_response_def)
  show ?thesis
    using handler_total[of sample_env request_by_user] r1
      handler_total[of sample_env request_bad_to] r2
      handler_total[of sample_env request_without_user] r3
    by blast
qed

end
